theory Spec2Isabelle
  imports Main "HOL-Library.List_Lexorder" "HOL-Library.Char_ord"
begin

section \<open>Values exchanged with the outside world\<close>

text \<open>
  The monitor is two Python modules: \<^verbatim>\<open>mail_reader.py\<close> (class \<^verbatim>\<open>O365MailReader\<close>) and
  \<^verbatim>\<open>main.py\<close> (the forwarder, one polling cycle and the loop). Everything they do is
  input and output, so the embedding makes the outside world explicit: what the remote
  services answer is a record of oracles (\<open>env\<close>, one per polling cycle), and what the
  program does to the world is an append-only list of events (\<open>trace\<close>) together with
  the content of the tracking file.

  Python exceptions are values. \<open>RequestException\<close> is \<^verbatim>\<open>requests.exceptions.RequestException\<close>
  with its message and the text of the response it carries, if any; \<open>IOError\<close> is
  \<^verbatim>\<open>IOError\<close> (that is \<^verbatim>\<open>OSError\<close>) raised by a file operation; \<open>PyException\<close> is any
  other subclass of \<^verbatim>\<open>Exception\<close> (\<^verbatim>\<open>ValueError\<close>, \<^verbatim>\<open>OverflowError\<close>, the bare
  \<^verbatim>\<open>Exception\<close> the reader raises) and also stands for the errors of \<^verbatim>\<open>smtplib\<close>,
  which only meet handlers \<^verbatim>\<open>except Exception\<close>; \<open>KeyboardInterrupt\<close> is the one
  exception of the program that \<^verbatim>\<open>except Exception\<close> does not catch.
  \<open>is_IOError\<close> is what \<^verbatim>\<open>except IOError\<close> catches: \<^verbatim>\<open>RequestException\<close> is a
  subclass of \<^verbatim>\<open>IOError\<close>.
\<close>

datatype exn =
    RequestException string "string option"
  | IOError string
  | PyException string
  | KeyboardInterrupt

fun is_Exception :: "exn \<Rightarrow> bool" where
  "is_Exception KeyboardInterrupt = False"
| "is_Exception (RequestException m r) = True"
| "is_Exception (IOError m) = True"
| "is_Exception (PyException m) = True"

fun is_RequestException :: "exn \<Rightarrow> bool" where
  "is_RequestException (RequestException m r) = True"
| "is_RequestException (IOError m) = False"
| "is_RequestException (PyException m) = False"
| "is_RequestException KeyboardInterrupt = False"

fun is_IOError :: "exn \<Rightarrow> bool" where
  "is_IOError (RequestException m r) = True"
| "is_IOError (IOError m) = True"
| "is_IOError (PyException m) = False"
| "is_IOError KeyboardInterrupt = False"

text \<open>
  A message summary as the query selects it. A field that is missing (or \<^verbatim>\<open>None\<close>) is
  \<open>None\<close>; \<open>from_address\<close> is \<^verbatim>\<open>msg["from"]["emailAddress"]["address"]\<close> and
  \<open>to_recipients\<close> the same path under each entry of \<^verbatim>\<open>toRecipients\<close>.
  The record fixes the shape of a message resource: a \<^verbatim>\<open>from\<close> that is present but not
  an object, on which \<^verbatim>\<open>.get\<close> would raise, is outside the model.
\<close>

record message =
  msg_id :: "string option"
  subject :: "string option"
  from_address :: "string option"
  to_recipients :: "string option list"
  receivedDateTime :: "string option"
  hasAttachments :: bool

text \<open>Python truthiness of an optional string: \<^verbatim>\<open>None\<close> and \<^verbatim>\<open>""\<close> are false.\<close>

fun truthy :: "string option \<Rightarrow> bool" where
  "truthy None = False"
| "truthy (Some v) = (v \<noteq> [])"

text \<open>The parameters of the message query (\<^verbatim>\<open>$top\<close>, \<^verbatim>\<open>$select\<close>, \<^verbatim>\<open>$orderby\<close>, \<^verbatim>\<open>$filter\<close>).\<close>

record query_params =
  top_q :: int
  select_q :: string
  orderby_q :: string
  filter_q :: "string option"

text \<open>The JSON object of the tracking file \<^verbatim>\<open>.last_email.json\<close>.\<close>

record cursor =
  last_received_datetime :: "string option"
  last_message_id :: "string option"
  last_subject :: "string option"
  last_from :: "string option"
  last_updated :: string

text \<open>
  What is at the tracking file's path: nothing, something that \<^verbatim>\<open>json.load\<close> or the read
  fails on (an empty or torn file included), or a JSON object.
\<close>

datatype file_state = Missing | Unparseable | Json cursor

text \<open>What the program prints, one constructor per \<^verbatim>\<open>print\<close> call of the source.\<close>

datatype line =
    TokenObtained
  | TokenError exn
  | ResponseText string
  | AttachmentsError exn
  | MimeError exn
  | TrackingReadWarning
  | TrackingUpdated
  | TrackingSaveWarning exn
  | FetchingSince string
  | FirstRun
  | FoundNew nat
  | NoNew
  | MessagesError exn
  | Separator
  | FromLine string
  | ToLine string
  | SubjectLine string
  | AttachmentsLine nat "string list"
  | HasAttachmentsYes
  | ForwardedViaSMTP
  | MimeFailed exn
  | SmtpFailed exn
  | CycleError exn
  | MonitorStarted
  | MonitorStopped
  | TotalChecks nat
  | TotalNewEmails nat
  | FatalError exn

text \<open>
  The observable actions. The HTTP events carry what the request is built from: the
  mailbox of the URL, the bearer token of the \<^verbatim>\<open>Authorization\<close> header, the folder and
  the query parameters, or the message id.
\<close>

datatype event =
    Print line
  | HttpPostToken string string
  | HttpGetMessages string "string option" string query_params
  | HttpGetAttachments string "string option" string
  | HttpGetMime string "string option" string
  | SmtpConnect string int
  | SmtpStartTls
  | SmtpLogin string string
  | SmtpSendmail string "string list" string
  | FileTruncate
  | FileDump cursor
  | Sleep int

text \<open>
  The reader object (\<^verbatim>\<open>O365MailReader.__init__\<close>) and the world it acts on, in one
  record: the four identity fields, the held token, \<^verbatim>\<open>silent_mode\<close>, the content of
  the tracking file and the events so far (oldest first).
\<close>

record state =
  client_id :: string
  tenant_id :: string
  client_secret :: string
  mailbox_email :: string
  access_token :: "string option"
  silent_mode :: bool
  tracking_file :: file_state
  trace :: "event list"

text \<open>
  How the write of the tracking file goes: \<^verbatim>\<open>open(path, 'w')\<close> raises (the file is
  untouched), \<^verbatim>\<open>json.dump\<close> raises after the open has truncated the file, or both succeed.
  What is raised is an \<^verbatim>\<open>IOError\<close> of the file system, or a \<^verbatim>\<open>KeyboardInterrupt\<close> when
  Ctrl+C arrives during the call.
\<close>

datatype write_outcome = WriteOk | OpenFails exn | DumpFails exn

datatype smtp_stage = Connect | StartTls | Login | Sendmail

text \<open>
  The outside world during one polling cycle. Each oracle answers the request the
  program sends: an exception, or the payload the code reads from the response.
  \<open>token_endpoint\<close> gives the \<^verbatim>\<open>access_token\<close> field of the token response;
  \<open>smtp_fault\<close> says, for the session that relays a given message, whether a stage
  raises; \<open>sleep_interrupted\<close> says whether Ctrl+C arrives during the wait.
\<close>

record env =
  token_endpoint :: "string \<Rightarrow> string \<Rightarrow> string \<Rightarrow> exn + string option"
  graph_messages :: "string \<Rightarrow> query_params \<Rightarrow> exn + message list"
  graph_attachments :: "string \<Rightarrow> exn + string option list"
  graph_mime :: "string \<Rightarrow> exn + string"
  smtp_fault :: "string \<Rightarrow> smtp_stage \<Rightarrow> exn option"
  disk_write :: write_outcome
  now :: string
  sleep_interrupted :: bool

text \<open>The module-level constants of \<^verbatim>\<open>main.py\<close>, as read from the environment.\<close>

record config =
  CLIENT_ID :: string
  TENANT_ID :: string
  CLIENT_SECRET :: string
  MAILBOX_EMAIL :: string
  LOOP_DELAY_SECONDS :: int
  ENABLE_CONTINUOUS_LOOP :: bool
  ENABLE_SMTP_FORWARD :: bool
  SMTP_HOST :: string
  SMTP_PORT :: int
  SMTP_USERNAME :: string
  SMTP_PASSWORD :: string
  SMTP_USE_TLS :: bool
  SMTP_FROM :: string
  SMTP_TO :: "string list"

definition emit :: "event \<Rightarrow> state \<Rightarrow> state" where
  "emit ev s = s\<lparr>trace := trace s @ [ev]\<rparr>"

text \<open>A print guarded by \<^verbatim>\<open>if not self.silent_mode\<close>.\<close>

definition verbose :: "line \<Rightarrow> state \<Rightarrow> state" where
  "verbose l s = (if \<not> silent_mode s then emit (Print l) s else s)"

text \<open>
  The tail of the two handlers that print the response of a failed request:
  \<^verbatim>\<open>if hasattr(e, 'response') and e.response is not None: print(...)\<close>.
\<close>

fun print_response :: "exn \<Rightarrow> state \<Rightarrow> state" where
  "print_response (RequestException m (Some r)) s = emit (Print (ResponseText r)) s"
| "print_response (RequestException m None) s = s"
| "print_response (IOError m) s = s"
| "print_response (PyException m) s = s"
| "print_response KeyboardInterrupt s = s"

section \<open>mail_reader.py\<close>

subsection \<open>get_access_token\<close>

definition get_access_token :: "env \<Rightarrow> state \<Rightarrow> (exn + string) \<times> state" where
  "get_access_token e s =
     (let s1 = emit (HttpPostToken (tenant_id s) (client_id s)) s in
      case token_endpoint e (tenant_id s) (client_id s) (client_secret s) of
        Inl x \<Rightarrow>
          (if is_RequestException x
           then (Inl x, print_response x (emit (Print (TokenError x)) s1))
           else (Inl x, s1))
      | Inr tok \<Rightarrow>
          (let s2 = s1\<lparr>access_token := tok\<rparr> in
           case tok of
             None \<Rightarrow> (Inl (PyException ''Failed to retrieve access token''), s2)
           | Some t \<Rightarrow>
               (if t = [] then (Inl (PyException ''Failed to retrieve access token''), s2)
                else (Inr t, verbose TokenObtained s2))))"

text \<open>
  The statement \<^verbatim>\<open>if not self.access_token: self.get_access_token()\<close>, which opens every
  mailbox operation and the cycle.
\<close>

definition ensure_token :: "env \<Rightarrow> state \<Rightarrow> (exn + unit) \<times> state" where
  "ensure_token e s =
     (if \<not> truthy (access_token s)
      then (case get_access_token e s of
              (Inl x, s1) \<Rightarrow> (Inl x, s1)
            | (Inr t, s1) \<Rightarrow> (Inr (), s1))
      else (Inr (), s))"

subsection \<open>get_attachments and get_message_mime\<close>

definition get_attachments :: "env \<Rightarrow> string \<Rightarrow> state \<Rightarrow> (exn + string option list) \<times> state" where
  "get_attachments e message_id s =
     (case ensure_token e s of
        (Inl x, s1) \<Rightarrow> (Inl x, s1)
      | (Inr u, s1) \<Rightarrow>
          (let s2 = emit (HttpGetAttachments (mailbox_email s1) (access_token s1) message_id) s1 in
           case graph_attachments e message_id of
             Inl x \<Rightarrow>
               (if is_RequestException x then (Inl x, emit (Print (AttachmentsError x)) s2)
                else (Inl x, s2))
           | Inr attachments \<Rightarrow> (Inr attachments, s2)))"

definition get_message_mime :: "env \<Rightarrow> string \<Rightarrow> state \<Rightarrow> (exn + string) \<times> state" where
  "get_message_mime e message_id s =
     (case ensure_token e s of
        (Inl x, s1) \<Rightarrow> (Inl x, s1)
      | (Inr u, s1) \<Rightarrow>
          (let s2 = emit (HttpGetMime (mailbox_email s1) (access_token s1) message_id) s1 in
           case graph_mime e message_id of
             Inl x \<Rightarrow>
               (if is_RequestException x then (Inl x, emit (Print (MimeError x)) s2)
                else (Inl x, s2))
           | Inr content \<Rightarrow> (Inr content, s2)))"

subsection \<open>The tracking file\<close>

definition load_last_email_timestamp :: "state \<Rightarrow> (string option \<times> string option) \<times> state" where
  "load_last_email_timestamp s =
     (case tracking_file s of
        Missing \<Rightarrow> ((None, None), s)
      | Unparseable \<Rightarrow> ((None, None), emit (Print TrackingReadWarning) s)
      | Json d \<Rightarrow> ((last_received_datetime d, last_message_id d), s))"

text \<open>
  The write is \<^verbatim>\<open>with open(self.tracking_file, 'w') as f: json.dump(data, f, indent=2)\<close>:
  the open truncates the file in place (an empty file is not JSON), then the dump
  writes the object into that same file.
\<close>

definition open_w :: "state \<Rightarrow> state" where
  "open_w s = emit FileTruncate (s\<lparr>tracking_file := Unparseable\<rparr>)"

definition json_dump :: "cursor \<Rightarrow> state \<Rightarrow> state" where
  "json_dump d s = emit (FileDump d) (s\<lparr>tracking_file := Json d\<rparr>)"

definition cursor_of :: "env \<Rightarrow> message \<Rightarrow> cursor" where
  "cursor_of e m =
     \<lparr>last_received_datetime = receivedDateTime m,
      last_message_id = msg_id m,
      last_subject = subject m,
      last_from = from_address m,
      last_updated = now e\<rparr>"

text \<open>
  The handler of the write is \<^verbatim>\<open>except IOError\<close>: it prints a warning and the function
  returns; any other exception leaves the function.
\<close>

definition save_except :: "exn \<Rightarrow> state \<Rightarrow> (exn + unit) \<times> state" where
  "save_except x s =
     (if is_IOError x then (Inr (), emit (Print (TrackingSaveWarning x)) s) else (Inl x, s))"

definition save_last_email_timestamp :: "env \<Rightarrow> message \<Rightarrow> state \<Rightarrow> (exn + unit) \<times> state" where
  "save_last_email_timestamp e m s =
     (let data = cursor_of e m in
      case disk_write e of
        OpenFails x \<Rightarrow> save_except x s
      | DumpFails x \<Rightarrow> save_except x (open_w s)
      | WriteOk \<Rightarrow> (Inr (), verbose TrackingUpdated (json_dump data (open_w s))))"

text \<open>
  The same write when the process is stopped inside it: before the open, between the
  open and the dump, or after the dump.
\<close>

datatype stop_point = BeforeOpen | AfterOpen | AfterDump

fun save_stopped_at :: "stop_point \<Rightarrow> env \<Rightarrow> message \<Rightarrow> state \<Rightarrow> state" where
  "save_stopped_at BeforeOpen e m s = s"
| "save_stopped_at AfterOpen e m s = open_w s"
| "save_stopped_at AfterDump e m s = json_dump (cursor_of e m) (open_w s)"

subsection \<open>get_new_messages\<close>

definition select_fields :: string where
  "select_fields = ''id,subject,from,toRecipients,receivedDateTime,sender,hasAttachments,isRead,bodyPreview''"

definition build_params :: "int \<Rightarrow> string option \<Rightarrow> query_params" where
  "build_params limit last_timestamp =
     (let params = \<lparr>top_q = limit, select_q = select_fields,
                    orderby_q = ''receivedDateTime desc'', filter_q = None\<rparr> in
      case last_timestamp of
        None \<Rightarrow> params
      | Some ts \<Rightarrow>
          (if ts = [] then params
           else params\<lparr>filter_q := Some (''receivedDateTime gt '' @ ts)\<rparr>))"

definition drop_last_processed :: "string option \<Rightarrow> message list \<Rightarrow> message list" where
  "drop_last_processed last_id messages =
     (if truthy last_id \<and> messages \<noteq> []
      then filter (\<lambda>msg. msg_id msg \<noteq> last_id) messages
      else messages)"

text \<open>
  The handler of the \<^verbatim>\<open>try\<close> block of \<^verbatim>\<open>get_new_messages\<close>:
  \<^verbatim>\<open>except requests.exceptions.RequestException\<close> prints and raises again; any other
  exception leaves the function as it is.
\<close>

definition messages_except :: "exn \<Rightarrow> state \<Rightarrow> (exn + message list) \<times> state" where
  "messages_except x s =
     (if is_RequestException x
      then (Inl x, print_response x (emit (Print (MessagesError x)) s))
      else (Inl x, s))"

definition get_new_messages :: "env \<Rightarrow> string \<Rightarrow> int \<Rightarrow> state \<Rightarrow> (exn + message list) \<times> state" where
  "get_new_messages e folder limit s =
     (case ensure_token e s of
        (Inl x, s1) \<Rightarrow> (Inl x, s1)
      | (Inr u, s1) \<Rightarrow>
          (case load_last_email_timestamp s1 of
             ((last_timestamp, last_id), s2) \<Rightarrow>
               (let params = build_params limit last_timestamp;
                    s3 = (case last_timestamp of
                            None \<Rightarrow> verbose FirstRun s2
                          | Some ts \<Rightarrow> if ts = [] then verbose FirstRun s2
                                       else verbose (FetchingSince ts) s2);
                    s4 = emit (HttpGetMessages (mailbox_email s3) (access_token s3) folder params) s3
                in case graph_messages e folder params of
                     Inl x \<Rightarrow> messages_except x s4
                   | Inr response \<Rightarrow>
                       (case drop_last_processed last_id response of
                          [] \<Rightarrow> (Inr [], verbose NoNew s4)
                        | m # ms \<Rightarrow>
                            (case save_last_email_timestamp e m
                                    (verbose (FoundNew (length (m # ms))) s4) of
                               (Inl x, s5) \<Rightarrow> messages_except x s5
                             | (Inr u, s5) \<Rightarrow> (Inr (m # ms), s5))))))"

section \<open>main.py\<close>

subsection \<open>Recipients\<close>

text \<open>
  \<^verbatim>\<open>_normalize_recipients\<close> accepts a string or a list (\<^verbatim>\<open>isinstance(value, str)\<close>).
  \<open>split_on\<close> is \<^verbatim>\<open>str.split(",")\<close> and \<open>strip\<close> is \<^verbatim>\<open>str.strip()\<close> on ASCII text.
\<close>

datatype recipients_value = Str string | Lst "string list"

fun split_on :: "char \<Rightarrow> string \<Rightarrow> string list" where
  "split_on c [] = [[]]"
| "split_on c (x # xs) =
     (if x = c then [] # split_on c xs
      else (case split_on c xs of
              [] \<Rightarrow> [[x]]
            | w # ws \<Rightarrow> (x # w) # ws))"

definition is_space :: "char \<Rightarrow> bool" where
  "is_space ch = (let n = (of_char ch :: nat) in (9 \<le> n \<and> n \<le> 13) \<or> (28 \<le> n \<and> n \<le> 32))"

definition strip :: "string \<Rightarrow> string" where
  "strip w = rev (dropWhile is_space (rev (dropWhile is_space w)))"

fun normalize_recipients :: "recipients_value \<Rightarrow> string list" where
  "normalize_recipients (Str v) = filter (\<lambda>addr. addr \<noteq> []) (map strip (split_on CHR '','' v))"
| "normalize_recipients (Lst v) = filter (\<lambda>addr. addr \<noteq> []) v"

subsection \<open>forward_message\<close>

text \<open>One call on the \<^verbatim>\<open>smtplib.SMTP\<close> object: the event, then what the relay answers.\<close>

definition smtp_step :: "env \<Rightarrow> string \<Rightarrow> smtp_stage \<Rightarrow> event \<Rightarrow> state \<Rightarrow> (exn + unit) \<times> state" where
  "smtp_step e message_id stage ev s =
     (case smtp_fault e message_id stage of
        Some x \<Rightarrow> (Inl x, emit ev s)
      | None \<Rightarrow> (Inr (), emit ev s))"

text \<open>
  The body of the second \<^verbatim>\<open>try\<close> of \<^verbatim>\<open>forward_message\<close> (the
  \<^verbatim>\<open>with smtplib.SMTP(...)\<close> block). Leaving the block closes the session; that
  close is not an event of the model.
\<close>

definition smtp_session ::
  "config \<Rightarrow> env \<Rightarrow> string \<Rightarrow> string list \<Rightarrow> string \<Rightarrow> state \<Rightarrow> (exn + unit) \<times> state" where
  "smtp_session c e message_id recipients mime_content s =
     (case smtp_step e message_id Connect (SmtpConnect (SMTP_HOST c) (SMTP_PORT c)) s of
        (Inl x, s1) \<Rightarrow> (Inl x, s1)
      | (Inr u, s1) \<Rightarrow>
     (case (if SMTP_USE_TLS c then smtp_step e message_id StartTls SmtpStartTls s1
            else (Inr (), s1)) of
        (Inl x, s2) \<Rightarrow> (Inl x, s2)
      | (Inr u, s2) \<Rightarrow>
     (case (if SMTP_USERNAME c \<noteq> []
            then smtp_step e message_id Login (SmtpLogin (SMTP_USERNAME c) (SMTP_PASSWORD c)) s2
            else (Inr (), s2)) of
        (Inl x, s3) \<Rightarrow> (Inl x, s3)
      | (Inr u, s3) \<Rightarrow>
     (case smtp_step e message_id Sendmail
             (SmtpSendmail (SMTP_FROM c) recipients mime_content) s3 of
        (Inl x, s4) \<Rightarrow> (Inl x, s4)
      | (Inr u, s4) \<Rightarrow> (Inr (), emit (Print ForwardedViaSMTP) s4)))))"

text \<open>
  \<^verbatim>\<open>forward_message\<close> returns \<^verbatim>\<open>None\<close> on every path; \<open>Inl\<close> is an exception that
  neither \<^verbatim>\<open>except Exception\<close> of the function catches.
\<close>

definition forward_message :: "config \<Rightarrow> env \<Rightarrow> message \<Rightarrow> state \<Rightarrow> (exn + unit) \<times> state" where
  "forward_message c e msg s =
     (let recipients = normalize_recipients (Lst (SMTP_TO c)) in
      if \<not> ENABLE_SMTP_FORWARD c \<or> SMTP_HOST c = [] \<or> recipients = [] then (Inr (), s)
      else (case msg_id msg of
              None \<Rightarrow> (Inr (), s)
            | Some message_id \<Rightarrow>
                (if message_id = [] then (Inr (), s)
                 else (case get_message_mime e message_id s of
                         (Inl x, s1) \<Rightarrow>
                           (if is_Exception x then (Inr (), emit (Print (MimeFailed x)) s1)
                            else (Inl x, s1))
                       | (Inr mime_content, s1) \<Rightarrow>
                           (case smtp_session c e message_id recipients mime_content s1 of
                              (Inl x, s2) \<Rightarrow>
                                (if is_Exception x then (Inr (), emit (Print (SmtpFailed x)) s2)
                                 else (Inl x, s2))
                            | (Inr u, s2) \<Rightarrow> (Inr (), s2))))))"

subsection \<open>check_for_new_emails\<close>

fun or_default :: "string option \<Rightarrow> string \<Rightarrow> string" where
  "or_default None d = d"
| "or_default (Some v) d = v"

text \<open>The four header prints of the loop body.\<close>

definition display_header :: "message \<Rightarrow> state \<Rightarrow> state" where
  "display_header msg s =
     (let sender = or_default (from_address msg) ''Unknown'';
          to_addr = (case to_recipients msg of
                       [] \<Rightarrow> ''Unknown''
                     | r # rs \<Rightarrow> or_default r ''Unknown'');
          subj = or_default (subject msg) ''[No Subject]''
      in emit (Print (SubjectLine subj))
           (emit (Print (ToLine to_addr))
              (emit (Print (FromLine sender))
                 (emit (Print Separator) s))))"

text \<open>The \<^verbatim>\<open>if has_attachments:\<close> block of the loop body.\<close>

definition display_attachments :: "env \<Rightarrow> message \<Rightarrow> state \<Rightarrow> (exn + unit) \<times> state" where
  "display_attachments e msg s =
     (if hasAttachments msg
      then (case msg_id msg of
              None \<Rightarrow> (Inr (), emit (Print HasAttachmentsYes) s)
            | Some message_id \<Rightarrow>
                (if message_id = [] then (Inr (), emit (Print HasAttachmentsYes) s)
                 else (case get_attachments e message_id s of
                         (Inl x, s1) \<Rightarrow>
                           (if is_Exception x then (Inr (), emit (Print HasAttachmentsYes) s1)
                            else (Inl x, s1))
                       | (Inr attachments, s1) \<Rightarrow>
                           (Inr (),
                            emit (Print (AttachmentsLine (length attachments)
                                           (map (\<lambda>att. or_default att ''unknown'') attachments)))
                              s1))))
      else (Inr (), s))"

text \<open>The body of \<^verbatim>\<open>for msg in messages\<close>, and the loop.\<close>

definition process_message :: "config \<Rightarrow> env \<Rightarrow> message \<Rightarrow> state \<Rightarrow> (exn + unit) \<times> state" where
  "process_message c e msg s =
     (case display_attachments e msg (display_header msg s) of
        (Inl x, s1) \<Rightarrow> (Inl x, s1)
      | (Inr u, s1) \<Rightarrow> forward_message c e msg s1)"

fun process_messages :: "config \<Rightarrow> env \<Rightarrow> message list \<Rightarrow> state \<Rightarrow> (exn + unit) \<times> state" where
  "process_messages c e [] s = (Inr (), s)"
| "process_messages c e (msg # rest) s =
     (case process_message c e msg s of
        (Inl x, s1) \<Rightarrow> (Inl x, s1)
      | (Inr u, s1) \<Rightarrow> process_messages c e rest s1)"

text \<open>The handler \<^verbatim>\<open>except Exception as e: print(...); return []\<close> of the cycle.\<close>

definition cycle_except :: "exn \<Rightarrow> state \<Rightarrow> (exn + message list) \<times> state" where
  "cycle_except x s =
     (if is_Exception x then (Inr [], emit (Print (CycleError x)) s) else (Inl x, s))"

definition check_for_new_emails :: "config \<Rightarrow> env \<Rightarrow> state \<Rightarrow> (exn + message list) \<times> state" where
  "check_for_new_emails c e s =
     (case ensure_token e s of
        (Inl x, s1) \<Rightarrow> cycle_except x s1
      | (Inr u, s1) \<Rightarrow>
          (case get_new_messages e ''inbox'' 50 s1 of
             (Inl x, s2) \<Rightarrow> cycle_except x s2
           | (Inr messages, s2) \<Rightarrow>
               (case process_messages c e messages s2 of
                  (Inl x, s3) \<Rightarrow> cycle_except x s3
                | (Inr u, s3) \<Rightarrow> (Inr messages, s3))))"

subsection \<open>main\<close>

text \<open>
  \<^verbatim>\<open>time.sleep\<close> on an integer: the length is first converted to nanoseconds in a
  signed 64-bit integer, which raises \<^verbatim>\<open>OverflowError\<close> beyond 9223372036 seconds in
  either direction; then a negative length raises \<^verbatim>\<open>ValueError\<close>. Ctrl+C during the
  wait raises \<^verbatim>\<open>KeyboardInterrupt\<close>.
\<close>

definition sleep :: "config \<Rightarrow> env \<Rightarrow> state \<Rightarrow> (exn + unit) \<times> state" where
  "sleep c e s =
     (if LOOP_DELAY_SECONDS c < - 9223372036 \<or> 9223372036 < LOOP_DELAY_SECONDS c
      then (Inl (PyException ''timestamp too large to convert to C _PyTime_t''), s)
      else if LOOP_DELAY_SECONDS c < 0
      then (Inl (PyException ''sleep length must be non-negative''), s)
      else (let s1 = emit (Sleep (LOOP_DELAY_SECONDS c)) s in
            if sleep_interrupted e then (Inl KeyboardInterrupt, s1) else (Inr (), s1)))"

text \<open>The two handlers around the loop, with the exit code each one leads to.\<close>

definition main_except :: "exn \<Rightarrow> nat \<Rightarrow> nat \<Rightarrow> state \<Rightarrow> int \<times> state" where
  "main_except x run_count new_emails_count s =
     (if x = KeyboardInterrupt
      then (0, emit (Print (TotalNewEmails new_emails_count))
                 (emit (Print (TotalChecks run_count))
                    (emit (Print MonitorStopped) s)))
      else (1, emit (Print (FatalError x)) s))"

text \<open>
  The loop \<^verbatim>\<open>while True\<close> takes one \<open>env\<close> per cycle. It has no exit of its own in
  continuous mode, so the result is optional: \<open>None\<close> says that the cycles given have
  all run and the loop is still going; \<open>Some code\<close> is the value \<^verbatim>\<open>main\<close> returns.
\<close>

fun main_loop :: "config \<Rightarrow> env list \<Rightarrow> nat \<Rightarrow> nat \<Rightarrow> state \<Rightarrow> int option \<times> state" where
  "main_loop c [] run_count new_emails_count s = (None, s)"
| "main_loop c (e # es) run_count new_emails_count s =
     (case check_for_new_emails c e s of
        (Inl x, s1) \<Rightarrow>
          (case main_except x (run_count + 1) new_emails_count s1 of
             (code, s2) \<Rightarrow> (Some code, s2))
      | (Inr messages, s1) \<Rightarrow>
          (let n1 = (if messages \<noteq> [] then new_emails_count + length messages
                     else new_emails_count) in
           if \<not> ENABLE_CONTINUOUS_LOOP c then (Some 0, s1)
           else (case sleep c e s1 of
                   (Inl x, s2) \<Rightarrow>
                     (case main_except x (run_count + 1) n1 s2 of
                        (code, s3) \<Rightarrow> (Some code, s3))
                 | (Inr u, s2) \<Rightarrow> main_loop c es (run_count + 1) n1 s2)))"

definition new_reader :: "config \<Rightarrow> file_state \<Rightarrow> state" where
  "new_reader c f =
     \<lparr>client_id = CLIENT_ID c, tenant_id = TENANT_ID c, client_secret = CLIENT_SECRET c,
      mailbox_email = MAILBOX_EMAIL c, access_token = None, silent_mode = True,
      tracking_file = f, trace = [Print MonitorStarted]\<rparr>"

definition main :: "config \<Rightarrow> env list \<Rightarrow> file_state \<Rightarrow> int option \<times> state" where
  "main c es f = main_loop c es 0 0 (new_reader c f)"

section \<open>Observations\<close>

text \<open>
  What the cursor store holds, as the program itself reads it: the two components of
  the pair that \<open>load_last_email_timestamp\<close> returns.
\<close>

definition stored_timestamp :: "state \<Rightarrow> string option" where
  "stored_timestamp s = fst (fst (load_last_email_timestamp s))"

definition stored_id :: "state \<Rightarrow> string option" where
  "stored_id s = snd (fst (load_last_email_timestamp s))"

text \<open>Counting and listing events of a trace.\<close>

fun is_token_request :: "event \<Rightarrow> bool" where
  "is_token_request (HttpPostToken t c) = True"
| "is_token_request ev = False"

fun is_http_get :: "event \<Rightarrow> bool" where
  "is_http_get (HttpGetMessages m t f p) = True"
| "is_http_get (HttpGetAttachments m t i) = True"
| "is_http_get (HttpGetMime m t i) = True"
| "is_http_get ev = False"

definition token_requests :: "event list \<Rightarrow> nat" where
  "token_requests evs = length (filter is_token_request evs)"

definition http_gets :: "event list \<Rightarrow> nat" where
  "http_gets evs = length (filter is_http_get evs)"

text \<open>Between two states the held token is the same and no token was requested.\<close>

definition token_kept :: "state \<Rightarrow> state \<Rightarrow> bool" where
  "token_kept s s' \<longleftrightarrow>
     access_token s' = access_token s \<and> token_requests (trace s') = token_requests (trace s)"

text \<open>A predicate on events that ignores the prints and the writes of the tracking file.\<close>

definition quiet :: "(event \<Rightarrow> bool) \<Rightarrow> bool" where
  "quiet P \<longleftrightarrow> (\<forall>l. \<not> P (Print l)) \<and> \<not> P FileTruncate \<and> (\<forall>d. \<not> P (FileDump d))"




text \<open>
  The exception that leaves \<^verbatim>\<open>save_last_email_timestamp\<close>, if any: what the write raises
  and \<^verbatim>\<open>except IOError\<close> does not catch.
\<close>

definition write_raises :: "env \<Rightarrow> exn option" where
  "write_raises e =
     (case disk_write e of
        WriteOk \<Rightarrow> None
      | OpenFails x \<Rightarrow> if is_IOError x then None else Some x
      | DumpFails x \<Rightarrow> if is_IOError x then None else Some x)"


text \<open>The print that announces the query (\<^verbatim>\<open>First run\<close> or \<^verbatim>\<open>Fetching new messages since\<close>), named for the proofs.\<close>

definition announce :: "string option \<Rightarrow> state \<Rightarrow> state" where
  "announce t s = (case t of None \<Rightarrow> verbose FirstRun s
      | Some ts \<Rightarrow> if ts = [] then verbose FirstRun s else verbose (FetchingSince ts) s)"

text \<open>
  Forwarding. \<open>fetched_ids\<close> lists, in order, the message ids whose raw content was
  fetched (the first step of every forward); \<open>forwardable_ids\<close> lists the ids of a batch
  that \<open>forward_message\<close> does not skip. \<open>forwarding_configured\<close> is the negation of the
  guard that makes \<open>forward_message\<close> return at once. \<open>only_exceptions\<close>: whatever the
  attachment listing, the fetch of the raw message or an SMTP stage raises is an
  \<^verbatim>\<open>Exception\<close> (nobody presses Ctrl+C during these calls). \<open>first_fault\<close> is the
  exception that ends the SMTP session of a message, if any: the first stage that
  raises among those the configuration runs.
\<close>

fun is_mime_fetch :: "event \<Rightarrow> bool" where
  "is_mime_fetch (HttpGetMime m t i) = True"
| "is_mime_fetch ev = False"

fun fetched_id :: "event \<Rightarrow> string" where
  "fetched_id (HttpGetMime m t i) = i"
| "fetched_id ev = []"

definition fetched_ids :: "event list \<Rightarrow> string list" where
  "fetched_ids evs = map fetched_id (filter is_mime_fetch evs)"

fun forwardable_id :: "message \<Rightarrow> string list" where
  "forwardable_id msg = (case msg_id msg of None \<Rightarrow> [] | Some i \<Rightarrow> if i = [] then [] else [i])"

definition forwardable_ids :: "message list \<Rightarrow> string list" where
  "forwardable_ids msgs = concat (map forwardable_id msgs)"

definition forwarding_configured :: "config \<Rightarrow> bool" where
  "forwarding_configured c \<longleftrightarrow>
     ENABLE_SMTP_FORWARD c \<and> SMTP_HOST c \<noteq> [] \<and> normalize_recipients (Lst (SMTP_TO c)) \<noteq> []"

definition only_exceptions :: "env \<Rightarrow> bool" where
  "only_exceptions e \<longleftrightarrow>
     (\<forall>i x. graph_attachments e i = Inl x \<longrightarrow> is_Exception x)
     \<and> (\<forall>i x. graph_mime e i = Inl x \<longrightarrow> is_Exception x)
     \<and> (\<forall>i st x. smtp_fault e i st = Some x \<longrightarrow> is_Exception x)"

definition first_fault :: "config \<Rightarrow> env \<Rightarrow> string \<Rightarrow> exn option" where
  "first_fault c e i =
     (case smtp_fault e i Connect of
        Some x \<Rightarrow> Some x
      | None \<Rightarrow>
     (case (if SMTP_USE_TLS c then smtp_fault e i StartTls else None) of
        Some x \<Rightarrow> Some x
      | None \<Rightarrow>
     (case (if SMTP_USERNAME c \<noteq> [] then smtp_fault e i Login else None) of
        Some x \<Rightarrow> Some x
      | None \<Rightarrow> smtp_fault e i Sendmail)))"


fun is_sleep :: "event \<Rightarrow> bool" where
  "is_sleep (Sleep d) = True"
| "is_sleep ev = False"

definition sleeps :: "event list \<Rightarrow> nat" where
  "sleeps evs = length (filter is_sleep evs)"

text \<open>The events of a write of the tracking file.\<close>

fun is_file_event :: "event \<Rightarrow> bool" where
  "is_file_event FileTruncate = True"
| "is_file_event (FileDump d) = True"
| "is_file_event ev = False"


definition appended :: "(event \<Rightarrow> bool) \<Rightarrow> state \<Rightarrow> state \<Rightarrow> bool" where
  "appended P s s' \<longleftrightarrow> (\<exists>evs. trace s' = trace s @ evs \<and> (\<forall>ev\<in>set evs. P ev))"

section \<open>Example data\<close>

definition m1 :: message where
  "m1 = \<lparr>msg_id = Some ''m1'', subject = Some ''First'', from_address = Some ''ann@example.org'',
         to_recipients = [Some ''box@example.org''],
         receivedDateTime = Some ''2024-01-01T10:00:00Z'', hasAttachments = False\<rparr>"

definition m2 :: message where
  "m2 = \<lparr>msg_id = Some ''m2'', subject = Some ''Second'', from_address = Some ''bob@example.org'',
         to_recipients = [Some ''box@example.org''],
         receivedDateTime = Some ''2024-01-02T10:00:00Z'', hasAttachments = False\<rparr>"

definition m2b :: message where
  "m2b = \<lparr>msg_id = Some ''m2b'', subject = Some ''Same second'',
          from_address = Some ''cat@example.org'', to_recipients = [Some ''box@example.org''],
          receivedDateTime = Some ''2024-01-02T10:00:00Z'', hasAttachments = False\<rparr>"

definition m3 :: message where
  "m3 = \<lparr>msg_id = Some ''m3'', subject = Some ''Third'', from_address = Some ''dan@example.org'',
         to_recipients = [Some ''box@example.org''],
         receivedDateTime = Some ''2024-01-03T10:00:00Z'', hasAttachments = True\<rparr>"

definition example_config :: config where
  "example_config =
     \<lparr>CLIENT_ID = ''app'', TENANT_ID = ''tenant'', CLIENT_SECRET = ''secret'',
      MAILBOX_EMAIL = ''box@example.org'', LOOP_DELAY_SECONDS = 5,
      ENABLE_CONTINUOUS_LOOP = True, ENABLE_SMTP_FORWARD = True, SMTP_HOST = ''relay.example.org'',
      SMTP_PORT = 587, SMTP_USERNAME = [], SMTP_PASSWORD = [], SMTP_USE_TLS = True,
      SMTP_FROM = ''monitor@example.org'', SMTP_TO = [''dest@example.org'']\<rparr>"

text \<open>A world where every service answers, with a given answer to the message query.\<close>

definition answering :: "(string \<Rightarrow> query_params \<Rightarrow> exn + message list) \<Rightarrow> env" where
  "answering q =
     \<lparr>token_endpoint = (\<lambda>t c k. Inr (Some ''token-1'')),
      graph_messages = q,
      graph_attachments = (\<lambda>i. Inr []),
      graph_mime = (\<lambda>i. Inr (''MIME of '' @ i)),
      smtp_fault = (\<lambda>i st. None),
      disk_write = WriteOk,
      now = ''2024-01-05T00:00:00'',
      sleep_interrupted = False\<rparr>"


text \<open>A reader that holds a token, with a given tracking file and an empty trace.\<close>

definition holding :: "file_state \<Rightarrow> state" where
  "holding f = (new_reader example_config f)\<lparr>access_token := Some ''token-0'', trace := []\<rparr>"

text \<open>
  A mailbox service over a fixed mailbox (newest first): it applies \<^verbatim>\<open>$top\<close> and, when
  the query carries one, the filter \<^verbatim>\<open>receivedDateTime gt ts\<close> (the text after the
  twenty characters \<^verbatim>\<open>receivedDateTime gt \<close> is the timestamp).
\<close>

definition mailbox_service :: "message list \<Rightarrow> string \<Rightarrow> query_params \<Rightarrow> exn + message list" where
  "mailbox_service box folder p =
     Inr (take (nat (top_q p))
            (case filter_q p of
               None \<Rightarrow> box
             | Some flt \<Rightarrow>
                 filter (\<lambda>m. case receivedDateTime m of
                                None \<Rightarrow> False
                              | Some t \<Rightarrow> drop 20 flt < t) box))"

text \<open>A world where the fetch of one message and the submission of another fail.\<close>

definition flaky :: env where
  "flaky = (answering (mailbox_service [m2, m1]))
     \<lparr>graph_mime := (\<lambda>i. if i = ''m2'' then Inl (RequestException ''503 Server Error'' None)
                         else Inr (''MIME of '' @ i)),
      smtp_fault := (\<lambda>i st. if i = ''m1'' \<and> st = Sendmail
                             then Some (PyException ''SMTPRecipientsRefused'') else None)\<rparr>"



text \<open>
  A mailbox service that also answers the messages that carry the filter's own
  timestamp: the case the client-side filter on the stored id is there for.
\<close>

definition tie_service :: "message list \<Rightarrow> string \<Rightarrow> query_params \<Rightarrow> exn + message list" where
  "tie_service box folder p =
     Inr (take (nat (top_q p))
            (case filter_q p of
               None \<Rightarrow> box
             | Some flt \<Rightarrow>
                 filter (\<lambda>m. case receivedDateTime m of
                                None \<Rightarrow> False
                              | Some t \<Rightarrow> drop 20 flt \<le> t) box))"








section \<open>Basic facts\<close>

lemma emit_fields [simp]:
  "trace (emit ev s) = trace s @ [ev]"
  "access_token (emit ev s) = access_token s"
  "tracking_file (emit ev s) = tracking_file s"
  "silent_mode (emit ev s) = silent_mode s"
  "mailbox_email (emit ev s) = mailbox_email s"
  "tenant_id (emit ev s) = tenant_id s"
  "client_id (emit ev s) = client_id s"
  "client_secret (emit ev s) = client_secret s"
  by (simp_all add: emit_def)

lemma verbose_fields [simp]:
  "access_token (verbose l s) = access_token s"
  "tracking_file (verbose l s) = tracking_file s"
  "silent_mode (verbose l s) = silent_mode s"
  "mailbox_email (verbose l s) = mailbox_email s"
  by (simp_all add: verbose_def)

lemma print_response_fields [simp]:
  "access_token (print_response x s) = access_token s"
  "tracking_file (print_response x s) = tracking_file s"
  "silent_mode (print_response x s) = silent_mode s"
  "mailbox_email (print_response x s) = mailbox_email s"
  by (cases "(x, s)" rule: print_response.cases; simp)+

lemma save_fields [simp]:
  "access_token (snd (save_last_email_timestamp e m s)) = access_token s"
  "silent_mode (snd (save_last_email_timestamp e m s)) = silent_mode s"
  "mailbox_email (snd (save_last_email_timestamp e m s)) = mailbox_email s"
  by (simp_all add: save_last_email_timestamp_def save_except_def open_w_def json_dump_def
        split: write_outcome.splits)

lemma save_fst:
  "fst (save_last_email_timestamp e m s) = (case write_raises e of None \<Rightarrow> Inr () | Some x \<Rightarrow> Inl x)"
  by (simp add: save_last_email_timestamp_def save_except_def write_raises_def
        split: write_outcome.splits)

lemma save_case [simp]:
  "(case save_last_email_timestamp e m s of (Inl x, s5) \<Rightarrow> A x s5 | (Inr u, s5) \<Rightarrow> B u s5) =
     (case write_raises e of
        None \<Rightarrow> B () (snd (save_last_email_timestamp e m s))
      | Some x \<Rightarrow> A x (snd (save_last_email_timestamp e m s)))"
  using save_fst[of e m s]
  by (cases "save_last_email_timestamp e m s") (auto split: option.splits sum.splits)

lemma write_raises_not_caught: "write_raises e = Some x \<Longrightarrow> \<not> is_IOError x"
  by (auto simp add: write_raises_def split: write_outcome.splits if_splits)

lemma not_IOError_not_RequestException: "\<not> is_IOError x \<Longrightarrow> \<not> is_RequestException x"
  by (cases x) simp_all

lemma messages_except_raised:
  "write_raises e = Some x \<Longrightarrow> messages_except x s = (Inl x, s)"
  by (simp add: messages_except_def write_raises_not_caught not_IOError_not_RequestException)

lemma messages_except_fields [simp]:
  "fst (messages_except x s) = Inl x"
  "access_token (snd (messages_except x s)) = access_token s"
  "tracking_file (snd (messages_except x s)) = tracking_file s"
  "silent_mode (snd (messages_except x s)) = silent_mode s"
  "mailbox_email (snd (messages_except x s)) = mailbox_email s"
  by (simp_all add: messages_except_def)

lemma token_requests_simps [simp]:
  "token_requests [] = 0"
  "token_requests (evs @ evs') = token_requests evs + token_requests evs'"
  "token_requests (ev # evs) = (if is_token_request ev then 1 else 0) + token_requests evs"
  by (simp_all add: token_requests_def)

lemma http_gets_simps [simp]:
  "http_gets [] = 0"
  "http_gets (evs @ evs') = http_gets evs + http_gets evs'"
  "http_gets (ev # evs) = (if is_http_get ev then 1 else 0) + http_gets evs"
  by (simp_all add: http_gets_def)

section \<open>The bearer token\<close>

lemma tr_verbose [simp]: "token_requests (trace (verbose l s)) = token_requests (trace s)"
  by (simp add: verbose_def)

lemma tr_print_response [simp]: "token_requests (trace (print_response x s)) = token_requests (trace s)"
  by (cases "(x, s)" rule: print_response.cases) simp_all

lemma tr_messages_except [simp]:
  "token_requests (trace (snd (messages_except x s))) = token_requests (trace s)"
  by (simp add: messages_except_def)

lemma tr_save [simp]: "token_requests (trace (snd (save_last_email_timestamp e m s))) = token_requests (trace s)"
  by (simp add: save_last_email_timestamp_def save_except_def open_w_def json_dump_def split: write_outcome.splits)

lemma get_access_token_requests:
  "token_requests (trace (snd (get_access_token e s))) = token_requests (trace s) + 1"
  by (simp add: get_access_token_def Let_def split: sum.splits option.splits)

lemma get_access_token_Inr:
  "get_access_token e s = (Inr t, s') \<Longrightarrow> truthy (access_token s')"
  by (auto simp add: get_access_token_def Let_def split: sum.splits option.splits if_splits)

lemma ensure_token_requests:
  "token_requests (trace (snd (ensure_token e s))) =
     token_requests (trace s) + (if truthy (access_token s) then 0 else 1)"
  using get_access_token_requests[of e s]
  by (auto simp add: ensure_token_def split: prod.splits sum.splits)

lemma ensure_token_Inr:
  "ensure_token e s = (Inr u, s') \<Longrightarrow> truthy (access_token s')"
  by (auto simp add: ensure_token_def split: prod.splits sum.splits if_splits dest: get_access_token_Inr)

lemma ensure_token_held: "truthy (access_token s) \<Longrightarrow> ensure_token e s = (Inr (), s)"
  by (simp add: ensure_token_def)

lemma get_attachments_requests:
  "token_requests (trace (snd (get_attachments e i s))) =
     token_requests (trace s) + (if truthy (access_token s) then 0 else 1)"
  using ensure_token_requests[of e s]
  by (auto simp add: get_attachments_def Let_def split: prod.splits sum.splits)

lemma get_attachments_token:
  "truthy (access_token s) \<Longrightarrow> access_token (snd (get_attachments e i s)) = access_token s"
  by (auto simp add: get_attachments_def ensure_token_held Let_def split: prod.splits sum.splits)

lemma get_message_mime_requests:
  "token_requests (trace (snd (get_message_mime e i s))) =
     token_requests (trace s) + (if truthy (access_token s) then 0 else 1)"
  using ensure_token_requests[of e s]
  by (auto simp add: get_message_mime_def Let_def split: prod.splits sum.splits)

lemma get_message_mime_token:
  "truthy (access_token s) \<Longrightarrow> access_token (snd (get_message_mime e i s)) = access_token s"
  by (auto simp add: get_message_mime_def ensure_token_held Let_def split: prod.splits sum.splits)

lemma get_new_messages_requests:
  "token_requests (trace (snd (get_new_messages e folder limit s))) =
     token_requests (trace s) + (if truthy (access_token s) then 0 else 1)"
  using ensure_token_requests[of e s]
  by (auto simp add: get_new_messages_def load_last_email_timestamp_def Let_def
       split: prod.splits sum.splits file_state.splits option.splits list.splits)

lemma get_new_messages_token:
  "truthy (access_token s) \<Longrightarrow> access_token (snd (get_new_messages e folder limit s)) = access_token s"
  by (auto simp add: get_new_messages_def ensure_token_held load_last_email_timestamp_def Let_def
       split: prod.splits sum.splits file_state.splits option.splits list.splits)



lemma token_kept_refl [simp]: "token_kept s s"
  by (simp add: token_kept_def)

lemma token_kept_trans: "token_kept s s1 \<Longrightarrow> token_kept s1 s2 \<Longrightarrow> token_kept s s2"
  by (simp add: token_kept_def)

lemma token_kept_print [simp]: "token_kept s (emit (Print l) s)"
  by (simp add: token_kept_def)

lemma token_kept_truthy: "token_kept s s' \<Longrightarrow> truthy (access_token s) \<Longrightarrow> truthy (access_token s')"
  by (simp add: token_kept_def)

lemma get_attachments_kept:
  "get_attachments e i s = (r, s') \<Longrightarrow> truthy (access_token s) \<Longrightarrow> token_kept s s'"
  using get_attachments_requests[of e i s] get_attachments_token[of s e i]
  by (simp add: token_kept_def)

lemma get_message_mime_kept:
  "get_message_mime e i s = (r, s') \<Longrightarrow> truthy (access_token s) \<Longrightarrow> token_kept s s'"
  using get_message_mime_requests[of e i s] get_message_mime_token[of s e i]
  by (simp add: token_kept_def)

lemma get_new_messages_kept:
  "get_new_messages e f l s = (r, s') \<Longrightarrow> truthy (access_token s) \<Longrightarrow> token_kept s s'"
  using get_new_messages_requests[of e f l s] get_new_messages_token[of s e f l]
  by (simp add: token_kept_def)

lemma smtp_session_kept:
  "smtp_session c e i r m s = (x, s') \<Longrightarrow> token_kept s s'"
  by (auto simp add: smtp_session_def smtp_step_def token_kept_def
        split: prod.splits sum.splits option.splits if_splits)

lemma forward_message_kept:
  assumes "forward_message c e msg s = (r, s')" and "truthy (access_token s)"
  shows "token_kept s s'"
  using assms
  by (auto simp add: forward_message_def Let_def
        split: prod.splits sum.splits option.splits if_splits
        dest!: get_message_mime_kept smtp_session_kept
        intro: token_kept_trans[OF _ token_kept_print] token_kept_trans)

lemma display_header_kept [simp]: "token_kept s (display_header msg s)"
  by (simp add: display_header_def token_kept_def Let_def)

lemma display_attachments_kept:
  assumes "display_attachments e msg s = (r, s')" and "truthy (access_token s)"
  shows "token_kept s s'"
  using assms
  by (auto simp add: display_attachments_def
        split: prod.splits sum.splits option.splits if_splits
        dest!: get_attachments_kept
        intro: token_kept_trans[OF _ token_kept_print])

lemma process_message_kept:
  assumes "process_message c e msg s = (r, s')" and "truthy (access_token s)"
  shows "token_kept s s'"
proof -
  obtain r1 s1 where d: "display_attachments e msg (display_header msg s) = (r1, s1)"
    by (cases "display_attachments e msg (display_header msg s)")
  have h: "token_kept s (display_header msg s)" by simp
  have k1: "token_kept (display_header msg s) s1"
    using display_attachments_kept[OF d] token_kept_truthy[OF h assms(2)] by simp
  have k: "token_kept s s1" using token_kept_trans[OF h k1] .
  show ?thesis
  proof (cases r1)
    case (Inl x)
    with assms(1) d have "s' = s1" by (simp add: process_message_def)
    with k show ?thesis by simp
  next
    case (Inr u)
    with assms(1) d have "forward_message c e msg s1 = (r, s')" by (simp add: process_message_def)
    from forward_message_kept[OF this token_kept_truthy[OF k assms(2)]] k
    show ?thesis by (rule token_kept_trans[rotated])
  qed
qed









lemma quiet_simps [simp]: "quiet is_token_request" "quiet is_http_get"
  by (simp_all add: quiet_def)

lemma filter_verbose [simp]:
  "quiet P \<Longrightarrow> filter P (trace (verbose l s)) = filter P (trace s)"
  by (simp add: verbose_def quiet_def)

lemma filter_print_response [simp]:
  "quiet P \<Longrightarrow> filter P (trace (print_response x s)) = filter P (trace s)"
  by (cases "(x, s)" rule: print_response.cases) (simp_all add: quiet_def)

lemma filter_messages_except [simp]:
  "quiet P \<Longrightarrow> filter P (trace (snd (messages_except x s))) = filter P (trace s)"
  by (simp add: messages_except_def quiet_def)

lemma filter_save [simp]:
  "quiet P \<Longrightarrow> filter P (trace (snd (save_last_email_timestamp e m s))) = filter P (trace s)"
  by (simp add: save_last_email_timestamp_def save_except_def open_w_def json_dump_def verbose_def quiet_def
        split: write_outcome.splits)


lemma ensure_token_file:
  "ensure_token e s = (r, s1) \<Longrightarrow> tracking_file s1 = tracking_file s"
  by (auto simp add: ensure_token_def get_access_token_def Let_def verbose_def
        split: if_splits sum.splits option.splits)





section \<open>The tracking file across a cycle\<close>

lemma stored_timestamp_file:
  "tracking_file s' = tracking_file s \<Longrightarrow> stored_timestamp s' = stored_timestamp s"
  by (simp add: stored_timestamp_def load_last_email_timestamp_def split: file_state.splits)

lemma stored_id_file:
  "tracking_file s' = tracking_file s \<Longrightarrow> stored_id s' = stored_id s"
  by (simp add: stored_id_def load_last_email_timestamp_def split: file_state.splits)

lemma get_attachments_file:
  "get_attachments e i s = (r, s') \<Longrightarrow> tracking_file s' = tracking_file s"
  by (auto simp add: get_attachments_def Let_def split: prod.splits sum.splits if_splits
        dest: ensure_token_file)

lemma get_message_mime_file:
  "get_message_mime e i s = (r, s') \<Longrightarrow> tracking_file s' = tracking_file s"
  by (auto simp add: get_message_mime_def Let_def split: prod.splits sum.splits if_splits
        dest: ensure_token_file)

lemma smtp_session_file:
  "smtp_session c e i r m s = (x, s') \<Longrightarrow> tracking_file s' = tracking_file s"
  by (auto simp add: smtp_session_def smtp_step_def
        split: prod.splits sum.splits option.splits if_splits)

lemma forward_message_file:
  "forward_message c e msg s = (r, s') \<Longrightarrow> tracking_file s' = tracking_file s"
  by (auto simp add: forward_message_def Let_def
        split: prod.splits sum.splits option.splits if_splits
        dest!: get_message_mime_file smtp_session_file)

lemma display_header_file [simp]: "tracking_file (display_header msg s) = tracking_file s"
  by (simp add: display_header_def Let_def)

lemma display_attachments_file:
  "display_attachments e msg s = (r, s') \<Longrightarrow> tracking_file s' = tracking_file s"
  by (auto simp add: display_attachments_def
        split: prod.splits sum.splits option.splits if_splits
        dest!: get_attachments_file)

lemma process_message_file:
  "process_message c e msg s = (r, s') \<Longrightarrow> tracking_file s' = tracking_file s"
  by (auto simp add: process_message_def split: prod.splits sum.splits
        dest!: display_attachments_file forward_message_file)

lemma process_messages_file:
  "process_messages c e msgs s = (r, s') \<Longrightarrow> tracking_file s' = tracking_file s"
  by (induction msgs arbitrary: s)
     (auto split: prod.splits sum.splits dest!: process_message_file)

lemma cycle_except_file: "cycle_except x s = (r, s') \<Longrightarrow> tracking_file s' = tracking_file s"
  by (auto simp add: cycle_except_def split: if_splits)



text \<open>Once the token is there, the query does not depend on how it got there.\<close>

lemma get_new_messages_after_token:
  assumes "ensure_token e s = (Inr u, s0)"
  shows "get_new_messages e f l s = get_new_messages e f l s0"
proof -
  have "ensure_token e s0 = (Inr (), s0)"
    using ensure_token_held ensure_token_Inr[OF assms] by blast
  with assms show ?thesis by (simp add: get_new_messages_def)
qed

lemma get_new_messages_no_token:
  assumes "ensure_token e s = (Inl x, s0)"
  shows "get_new_messages e f l s = (Inl x, s0)"
  using assms by (simp add: get_new_messages_def)

lemma check_for_new_emails_file:
  "tracking_file (snd (check_for_new_emails c e s)) =
   tracking_file (snd (get_new_messages e ''inbox'' 50 s))"
proof -
  obtain r0 s0 where t: "ensure_token e s = (r0, s0)" by (cases "ensure_token e s")
  show ?thesis
  proof (cases r0)
    case (Inl x)
    obtain r s' where c: "cycle_except x s0 = (r, s')" by (cases "cycle_except x s0")
    from cycle_except_file[OF c] c t Inl show ?thesis
      by (simp add: check_for_new_emails_def get_new_messages_def)
  next
    case (Inr u)
    have eq: "get_new_messages e ''inbox'' 50 s = get_new_messages e ''inbox'' 50 s0"
      using get_new_messages_after_token t Inr by blast
    obtain r1 s1 where g: "get_new_messages e ''inbox'' 50 s0 = (r1, s1)"
      by (cases "get_new_messages e ''inbox'' 50 s0")
    show ?thesis
    proof (cases r1)
      case (Inl x)
      obtain r s' where c: "cycle_except x s1 = (r, s')" by (cases "cycle_except x s1")
      from cycle_except_file[OF c] c t \<open>r0 = Inr u\<close> g Inl eq show ?thesis
        by (simp add: check_for_new_emails_def)
    next
      case (Inr msgs)
      obtain r2 s2 where p: "process_messages c e msgs s1 = (r2, s2)"
        by (cases "process_messages c e msgs s1")
      have f2: "tracking_file s2 = tracking_file s1" using process_messages_file[OF p] .
      show ?thesis
      proof (cases r2)
        case (Inl x)
        obtain r s' where c: "cycle_except x s2 = (r, s')" by (cases "cycle_except x s2")
        from cycle_except_file[OF c] c t \<open>r0 = Inr u\<close> g \<open>r1 = Inr msgs\<close> p Inl eq f2 show ?thesis
          by (simp add: check_for_new_emails_def)
      next
        case (Inr v)
        with t \<open>r0 = Inr u\<close> g \<open>r1 = Inr msgs\<close> p eq f2 show ?thesis
          by (simp add: check_for_new_emails_def)
      qed
    qed
  qed
qed

section \<open>The query and the cursor\<close>

lemma save_file:
  "tracking_file (snd (save_last_email_timestamp e m s)) =
     (case disk_write e of
        WriteOk \<Rightarrow> Json (cursor_of e m)
      | OpenFails x \<Rightarrow> tracking_file s
      | DumpFails x \<Rightarrow> Unparseable)"
  by (simp add: save_last_email_timestamp_def save_except_def open_w_def json_dump_def split: write_outcome.splits)

lemma load_snd_fields [simp]:
  "tracking_file (snd (load_last_email_timestamp s)) = tracking_file s"
  "access_token (snd (load_last_email_timestamp s)) = access_token s"
  "mailbox_email (snd (load_last_email_timestamp s)) = mailbox_email s"
  "silent_mode (snd (load_last_email_timestamp s)) = silent_mode s"
  by (simp_all add: load_last_email_timestamp_def split: file_state.splits)

lemma load_snd_filter [simp]:
  "quiet P \<Longrightarrow> filter P (trace (snd (load_last_email_timestamp s))) = filter P (trace s)"
  by (simp add: load_last_email_timestamp_def quiet_def split: file_state.splits)

lemma announce_fields [simp]:
  "tracking_file (announce t s) = tracking_file s"
  "access_token (announce t s) = access_token s"
  "mailbox_email (announce t s) = mailbox_email s"
  "silent_mode (announce t s) = silent_mode s"
  by (cases t; simp add: announce_def)+

lemma announce_filter [simp]:
  "quiet P \<Longrightarrow> filter P (trace (announce t s)) = filter P (trace s)"
  by (cases t) (simp_all add: announce_def)

lemma get_new_messages_unfold:
  assumes "truthy (access_token s)"
  shows "get_new_messages e f l s =
     (let s4 = emit (HttpGetMessages (mailbox_email s) (access_token s) f
                   (build_params l (stored_timestamp s)))
                 (announce (stored_timestamp s) (snd (load_last_email_timestamp s)))
      in case graph_messages e f (build_params l (stored_timestamp s)) of
           Inl x \<Rightarrow>
             messages_except x s4
         | Inr response \<Rightarrow>
             (case drop_last_processed (stored_id s) response of
                [] \<Rightarrow> (Inr [], verbose NoNew s4)
              | m # ms \<Rightarrow>
                  (let s5 = snd (save_last_email_timestamp e m
                                   (verbose (FoundNew (length (m # ms))) s4))
                   in case write_raises e of
                        None \<Rightarrow> (Inr (m # ms), s5)
                      | Some x \<Rightarrow> (Inl x, s5))))"
proof -
  obtain ts lid s2 where ld: "load_last_email_timestamp s = ((ts, lid), s2)"
    by (cases "load_last_email_timestamp s") auto
  have p: "stored_timestamp s = ts" "stored_id s = lid" "snd (load_last_email_timestamp s) = s2"
    using ld by (simp_all add: stored_timestamp_def stored_id_def)
  have m: "mailbox_email s2 = mailbox_email s" "access_token s2 = access_token s"
    using p(3) load_snd_fields[of s] by auto
  show ?thesis
    unfolding p
    using assms m
    by (simp add: get_new_messages_def ensure_token_held ld announce_def Let_def
          messages_except_raised
          flip: announce_def split: sum.splits list.splits option.splits)
qed

lemma get_new_messages_held_fst:
  assumes "truthy (access_token s)"
  shows "fst (get_new_messages e f l s) =
           (case graph_messages e f (build_params l (stored_timestamp s)) of
              Inl x \<Rightarrow> Inl x
            | Inr response \<Rightarrow>
                (case drop_last_processed (stored_id s) response of
                   [] \<Rightarrow> Inr []
                 | m # ms \<Rightarrow>
                     (case write_raises e of None \<Rightarrow> Inr (m # ms) | Some x \<Rightarrow> Inl x)))"
  by (simp add: get_new_messages_unfold[OF assms] Let_def
        split: sum.splits list.splits option.splits)

lemma get_new_messages_held_Inr:
  assumes "truthy (access_token s)" and "fst (get_new_messages e f l s) = Inr msgs"
  shows "\<exists>response. graph_messages e f (build_params l (stored_timestamp s)) = Inr response
           \<and> msgs = drop_last_processed (stored_id s) response
           \<and> (msgs \<noteq> [] \<longrightarrow> write_raises e = None)"
  using assms(2) unfolding get_new_messages_held_fst[OF assms(1)]
  by (auto split: sum.splits list.splits option.splits)

lemma get_new_messages_held_file:
  assumes "truthy (access_token s)"
  shows "tracking_file (snd (get_new_messages e f l s)) =
           (case graph_messages e f (build_params l (stored_timestamp s)) of
              Inl x \<Rightarrow> tracking_file s
            | Inr response \<Rightarrow>
                (case drop_last_processed (stored_id s) response of
                   [] \<Rightarrow> tracking_file s
                 | m # ms \<Rightarrow>
                     (case disk_write e of
                        WriteOk \<Rightarrow> Json (cursor_of e m)
                      | OpenFails x \<Rightarrow> tracking_file s
                      | DumpFails x \<Rightarrow> Unparseable)))"
  by (simp add: get_new_messages_unfold[OF assms] Let_def save_file
        split: sum.splits list.splits option.splits cong: write_outcome.case_cong)



lemma stored_timestamp_Json:
  "tracking_file s = Json d \<Longrightarrow> stored_timestamp s = last_received_datetime d"
  by (simp add: stored_timestamp_def load_last_email_timestamp_def)

lemma stored_id_Json:
  "tracking_file s = Json d \<Longrightarrow> stored_id s = last_message_id d"
  by (simp add: stored_id_def load_last_email_timestamp_def)










lemma get_new_messages_writes_head:
  assumes res: "fst (get_new_messages e f l s) = Inr (m # ms)" and ok: "disk_write e = WriteOk"
  shows "tracking_file (snd (get_new_messages e f l s)) = Json (cursor_of e m)"
proof -
  obtain r0 s0 where t: "ensure_token e s = (r0, s0)" by (cases "ensure_token e s")
  show ?thesis
  proof (cases r0)
    case (Inl x)
    with t res show ?thesis by (simp add: get_new_messages_no_token)
  next
    case (Inr u)
    have held: "truthy (access_token s0)" using ensure_token_Inr t Inr by blast
    have eq: "get_new_messages e f l s = get_new_messages e f l s0"
      using get_new_messages_after_token t Inr by blast
    from res eq get_new_messages_held_Inr[OF held, of e f l "m # ms"]
    obtain response where
      "graph_messages e f (build_params l (stored_timestamp s0)) = Inr response"
      "drop_last_processed (stored_id s0) response = m # ms"
      by auto
    with get_new_messages_held_file[OF held, of e f l] ok eq show ?thesis by simp
  qed
qed


section \<open>What a query returns\<close>

lemma holding_fields [simp]:
  "tracking_file (holding f) = f" "access_token (holding f) = Some ''token-0''"
  "trace (holding f) = []"
  by (simp_all add: holding_def new_reader_def)

lemma drop_last_processed_filter:
  "i \<noteq> [] \<Longrightarrow> drop_last_processed (Some i) response = filter (\<lambda>m. msg_id m \<noteq> Some i) response"
  by (simp add: drop_last_processed_def)

lemma get_new_messages_tokened:
  assumes tok: "ensure_token e s = (Inr u, s0)"
  shows "fst (get_new_messages e f l s) =
           (case graph_messages e f (build_params l (stored_timestamp s)) of
              Inl x \<Rightarrow> Inl x
            | Inr response \<Rightarrow>
                (case drop_last_processed (stored_id s) response of
                   [] \<Rightarrow> Inr []
                 | m # ms \<Rightarrow>
                     (case write_raises e of None \<Rightarrow> Inr (m # ms) | Some x \<Rightarrow> Inl x)))"
    and "tracking_file (snd (get_new_messages e f l s)) =
           (case graph_messages e f (build_params l (stored_timestamp s)) of
              Inl x \<Rightarrow> tracking_file s
            | Inr response \<Rightarrow>
                (case drop_last_processed (stored_id s) response of
                   [] \<Rightarrow> tracking_file s
                 | m # ms \<Rightarrow>
                     (case disk_write e of
                        WriteOk \<Rightarrow> Json (cursor_of e m)
                      | OpenFails x \<Rightarrow> tracking_file s
                      | DumpFails x \<Rightarrow> Unparseable)))"
proof -
  have held: "truthy (access_token s0)" using ensure_token_Inr[OF tok] .
  have eq: "get_new_messages e f l s = get_new_messages e f l s0"
    using get_new_messages_after_token[OF tok] .
  have f0: "tracking_file s0 = tracking_file s" using ensure_token_file[OF tok] .
  note st = stored_timestamp_file[OF f0] stored_id_file[OF f0]
  show "fst (get_new_messages e f l s) =
           (case graph_messages e f (build_params l (stored_timestamp s)) of
              Inl x \<Rightarrow> Inl x
            | Inr response \<Rightarrow>
                (case drop_last_processed (stored_id s) response of
                   [] \<Rightarrow> Inr []
                 | m # ms \<Rightarrow>
                     (case write_raises e of None \<Rightarrow> Inr (m # ms) | Some x \<Rightarrow> Inl x)))"
    using get_new_messages_held_fst[OF held, of e f l] unfolding eq st .
  show "tracking_file (snd (get_new_messages e f l s)) =
           (case graph_messages e f (build_params l (stored_timestamp s)) of
              Inl x \<Rightarrow> tracking_file s
            | Inr response \<Rightarrow>
                (case drop_last_processed (stored_id s) response of
                   [] \<Rightarrow> tracking_file s
                 | m # ms \<Rightarrow>
                     (case disk_write e of
                        WriteOk \<Rightarrow> Json (cursor_of e m)
                      | OpenFails x \<Rightarrow> tracking_file s
                      | DumpFails x \<Rightarrow> Unparseable)))"
    using get_new_messages_held_file[OF held, of e f l] unfolding eq st f0 .
qed

lemma get_new_messages_Inr_token:
  assumes "fst (get_new_messages e f l s) = Inr msgs"
  obtains u s0 where "ensure_token e s = (Inr u, s0)"
proof -
  obtain r0 s0 where t: "ensure_token e s = (r0, s0)" by (cases "ensure_token e s")
  show ?thesis
  proof (cases r0)
    case (Inl x)
    with t assms show ?thesis by (simp add: get_new_messages_no_token)
  next
    case (Inr u)
    with t that show ?thesis by blast
  qed
qed

lemma get_new_messages_Inr_response:
  assumes "fst (get_new_messages e f l s) = Inr msgs"
  obtains response where
    "graph_messages e f (build_params l (stored_timestamp s)) = Inr response"
    "msgs = drop_last_processed (stored_id s) response"
proof -
  from assms obtain u s0 where tok: "ensure_token e s = (Inr u, s0)"
    by (rule get_new_messages_Inr_token)
  from get_new_messages_tokened(1)[OF tok, of f l] assms that show ?thesis
    by (cases "graph_messages e f (build_params l (stored_timestamp s))")
       (auto split: list.splits option.splits)
qed




lemma in_trace_kept:
  "ev \<in> set (trace s) \<Longrightarrow> ev \<in> set (trace (verbose l s))"
  "ev \<in> set (trace s) \<Longrightarrow> ev \<in> set (trace (print_response x s))"
  "ev \<in> set (trace s) \<Longrightarrow> ev \<in> set (trace (snd (save_last_email_timestamp e m s)))"
proof -
  show "ev \<in> set (trace s) \<Longrightarrow> ev \<in> set (trace (verbose l s))"
    by (simp add: verbose_def)
  show "ev \<in> set (trace s) \<Longrightarrow> ev \<in> set (trace (print_response x s))"
    by (cases "(x, s)" rule: print_response.cases) simp_all
  show "ev \<in> set (trace s) \<Longrightarrow> ev \<in> set (trace (snd (save_last_email_timestamp e m s)))"
    by (simp add: save_last_email_timestamp_def save_except_def open_w_def json_dump_def verbose_def
          split: write_outcome.splits)
qed

lemma in_trace_messages_except:
  "ev \<in> set (trace s) \<Longrightarrow> ev \<in> set (trace (snd (messages_except x s)))"
  by (simp add: messages_except_def in_trace_kept)

lemma get_new_messages_query_sent:
  assumes tok: "ensure_token e s = (Inr u, s0)"
  shows "HttpGetMessages (mailbox_email s0) (access_token s0) f
           (build_params l (stored_timestamp s))
         \<in> set (trace (snd (get_new_messages e f l s)))"
proof -
  have held: "truthy (access_token s0)" using ensure_token_Inr[OF tok] .
  have eq: "get_new_messages e f l s = get_new_messages e f l s0"
    using get_new_messages_after_token[OF tok] .
  have st: "stored_timestamp s0 = stored_timestamp s"
    using stored_timestamp_file[OF ensure_token_file[OF tok]] .
  show ?thesis
    unfolding eq get_new_messages_unfold[OF held] st
    by (simp add: Let_def in_trace_kept in_trace_messages_except
          split: sum.splits list.splits option.splits)
qed

lemma drop_last_processed_keeps:
  "m \<in> set response \<Longrightarrow> msg_id m \<noteq> lid \<Longrightarrow> m \<in> set (drop_last_processed lid response)"
  by (simp add: drop_last_processed_def)

lemma build_params_filter:
  "ts \<noteq> [] \<Longrightarrow> filter_q (build_params l (Some ts)) = Some (''receivedDateTime gt '' @ ts)"
  by (simp add: build_params_def)

lemma check_for_new_emails_processes:
  assumes res: "fst (get_new_messages e ''inbox'' 50 s) = Inr msgs"
  shows "check_for_new_emails c e s =
           (case process_messages c e msgs (snd (get_new_messages e ''inbox'' 50 s)) of
              (Inl x, s3) \<Rightarrow> cycle_except x s3
            | (Inr u, s3) \<Rightarrow> (Inr msgs, s3))"
proof -
  from res obtain u s0 where tok: "ensure_token e s = (Inr u, s0)"
    by (rule get_new_messages_Inr_token)
  have eq: "get_new_messages e ''inbox'' 50 s = get_new_messages e ''inbox'' 50 s0"
    using get_new_messages_after_token[OF tok] .
  obtain r1 s1 where g: "get_new_messages e ''inbox'' 50 s0 = (r1, s1)"
    by (cases "get_new_messages e ''inbox'' 50 s0")
  with res eq have r1: "r1 = Inr msgs" by simp
  show ?thesis
    unfolding eq using tok g r1 by (simp add: check_for_new_emails_def)
qed

section \<open>Forwarding a batch\<close>

lemma quiet_mime [simp]: "quiet is_mime_fetch"
  by (simp add: quiet_def)

lemma fetched_ids_simps [simp]:
  "fetched_ids [] = []"
  "fetched_ids (evs @ evs') = fetched_ids evs @ fetched_ids evs'"
  "fetched_ids (ev # evs) = (if is_mime_fetch ev then [fetched_id ev] else []) @ fetched_ids evs"
  by (simp_all add: fetched_ids_def)

lemma smtp_session_result:
  "fst (smtp_session c e i r m s) = (case first_fault c e i of Some x \<Rightarrow> Inl x | None \<Rightarrow> Inr ())"
  by (simp add: smtp_session_def smtp_step_def first_fault_def split: option.splits)

lemma smtp_session_fetched:
  "fetched_ids (trace (snd (smtp_session c e i r m s))) = fetched_ids (trace s)"
  by (simp add: smtp_session_def smtp_step_def split: option.splits)

lemma get_message_mime_held:
  assumes "truthy (access_token s)"
  shows "fst (get_message_mime e i s) = graph_mime e i"
    and "fetched_ids (trace (snd (get_message_mime e i s))) = fetched_ids (trace s) @ [i]"
    and "truthy (access_token (snd (get_message_mime e i s)))"
  using assms
  by (simp_all add: get_message_mime_def ensure_token_held Let_def split: sum.splits)

lemma get_attachments_held:
  assumes "truthy (access_token s)"
  shows "fst (get_attachments e i s) = graph_attachments e i"
    and "fetched_ids (trace (snd (get_attachments e i s))) = fetched_ids (trace s)"
    and "truthy (access_token (snd (get_attachments e i s)))"
  using assms
  by (simp_all add: get_attachments_def ensure_token_held Let_def split: sum.splits)

lemma forward_message_unfold:
  assumes cfg: "forwarding_configured c" and mid: "msg_id msg = Some i" "i \<noteq> []"
  shows "forward_message c e msg s =
     (case get_message_mime e i s of
        (Inl x, s1) \<Rightarrow>
          (if is_Exception x then (Inr (), emit (Print (MimeFailed x)) s1) else (Inl x, s1))
      | (Inr mime_content, s1) \<Rightarrow>
          (case smtp_session c e i (normalize_recipients (Lst (SMTP_TO c))) mime_content s1 of
             (Inl x, s2) \<Rightarrow>
               (if is_Exception x then (Inr (), emit (Print (SmtpFailed x)) s2) else (Inl x, s2))
           | (Inr u, s2) \<Rightarrow> (Inr (), s2)))"
  using cfg mid
  by (simp add: forward_message_def forwarding_configured_def Let_def
        del: normalize_recipients.simps)

lemma forward_message_skips:
  assumes "\<not> forwarding_configured c \<or> forwardable_id msg = []"
  shows "forward_message c e msg s = (Inr (), s)"
  using assms
  by (auto simp add: forward_message_def forwarding_configured_def Let_def split: option.splits)

lemma forward_message_mime_failed:
  assumes held: "truthy (access_token s)" and cfg: "forwarding_configured c"
    and mid: "msg_id msg = Some i" "i \<noteq> []"
    and fail: "graph_mime e i = Inl x" and ex: "is_Exception x"
  shows "forward_message c e msg s =
           (Inr (), emit (Print (MimeFailed x)) (snd (get_message_mime e i s)))"
proof -
  obtain r1 s1 where g: "get_message_mime e i s = (r1, s1)" by (cases "get_message_mime e i s")
  with get_message_mime_held(1)[OF held, of e i] fail have "r1 = Inl x" by simp
  with g ex show ?thesis by (simp add: forward_message_unfold[OF cfg mid])
qed

lemma forward_message_smtp:
  assumes held: "truthy (access_token s)" and cfg: "forwarding_configured c"
    and mid: "msg_id msg = Some i" "i \<noteq> []"
    and got: "graph_mime e i = Inr content"
  shows "forward_message c e msg s =
           (case first_fault c e i of
              None \<Rightarrow> (Inr (), snd (smtp_session c e i (normalize_recipients (Lst (SMTP_TO c)))
                                      content (snd (get_message_mime e i s))))
            | Some x \<Rightarrow>
                (if is_Exception x
                 then (Inr (), emit (Print (SmtpFailed x))
                                 (snd (smtp_session c e i (normalize_recipients (Lst (SMTP_TO c)))
                                         content (snd (get_message_mime e i s)))))
                 else (Inl x, snd (smtp_session c e i (normalize_recipients (Lst (SMTP_TO c)))
                                     content (snd (get_message_mime e i s))))))"
proof -
  obtain r1 s1 where g: "get_message_mime e i s = (r1, s1)" by (cases "get_message_mime e i s")
  with get_message_mime_held(1)[OF held, of e i] got have r1: "r1 = Inr content" by simp
  obtain r2 s2 where ss: "smtp_session c e i (normalize_recipients (Lst (SMTP_TO c))) content s1 = (r2, s2)"
    by (cases "smtp_session c e i (normalize_recipients (Lst (SMTP_TO c))) content s1")
  from smtp_session_result[of c e i "normalize_recipients (Lst (SMTP_TO c))" content s1] ss
  have r2: "r2 = (case first_fault c e i of Some x \<Rightarrow> Inl x | None \<Rightarrow> Inr ())" by simp
  show ?thesis
    using g r1 ss r2
    by (simp add: forward_message_unfold[OF cfg mid] split: option.splits)
qed

lemma only_exceptions_fault:
  "only_exceptions e \<Longrightarrow> first_fault c e i = Some x \<Longrightarrow> is_Exception x"
  by (auto simp add: only_exceptions_def first_fault_def split: option.splits if_splits)

text \<open>One message, forwarding configured: the fetch is attempted and the call returns.\<close>

lemma forward_message_attempt:
  assumes held: "truthy (access_token s)" and cfg: "forwarding_configured c"
    and mid: "msg_id msg = Some i" "i \<noteq> []"
    and ex: "only_exceptions e"
  shows "fst (forward_message c e msg s) = Inr ()"
    and "fetched_ids (trace (snd (forward_message c e msg s))) = fetched_ids (trace s) @ [i]"
proof -
  note mm = get_message_mime_held[OF held, of e i]
  show "fst (forward_message c e msg s) = Inr ()"
  proof (cases "graph_mime e i")
    case (Inl x)
    have "is_Exception x" using ex Inl by (auto simp add: only_exceptions_def)
    from forward_message_mime_failed[OF held cfg mid Inl this] show ?thesis by simp
  next
    case (Inr content)
    from forward_message_smtp[OF held cfg mid Inr] only_exceptions_fault[OF ex, of c i]
    show ?thesis by (cases "first_fault c e i") simp_all
  qed
  show "fetched_ids (trace (snd (forward_message c e msg s))) = fetched_ids (trace s) @ [i]"
  proof (cases "graph_mime e i")
    case (Inl x)
    have "is_Exception x" using ex Inl by (auto simp add: only_exceptions_def)
    from forward_message_mime_failed[OF held cfg mid Inl this] mm(2) show ?thesis by simp
  next
    case (Inr content)
    from forward_message_smtp[OF held cfg mid Inr] only_exceptions_fault[OF ex, of c i]
      mm(2) smtp_session_fetched
    show ?thesis by (cases "first_fault c e i") simp_all
  qed
qed

lemma forward_message_fetches:
  assumes held: "truthy (access_token s)" and ex: "only_exceptions e"
  shows "fst (forward_message c e msg s) = Inr ()"
    and "forwarding_configured c \<Longrightarrow>
         fetched_ids (trace (snd (forward_message c e msg s)))
           = fetched_ids (trace s) @ forwardable_id msg"
proof -
  have both: "fst (forward_message c e msg s) = Inr ()
      \<and> (forwarding_configured c \<longrightarrow>
         fetched_ids (trace (snd (forward_message c e msg s)))
           = fetched_ids (trace s) @ forwardable_id msg)"
  proof (cases "\<not> forwarding_configured c \<or> forwardable_id msg = []")
    case True
    from forward_message_skips[OF True] True show ?thesis by auto
  next
    case False
    then have cfg: "forwarding_configured c" by simp
    from False obtain i where mid: "msg_id msg = Some i" "i \<noteq> []"
      by (cases "msg_id msg") (auto split: if_splits)
    from forward_message_attempt[OF held cfg mid ex] mid show ?thesis by simp
  qed
  from both show "fst (forward_message c e msg s) = Inr ()" by simp
  from both show "forwarding_configured c \<Longrightarrow>
         fetched_ids (trace (snd (forward_message c e msg s)))
           = fetched_ids (trace s) @ forwardable_id msg" by simp
qed

lemma display_header_fetched [simp]:
  "fetched_ids (trace (display_header msg s)) = fetched_ids (trace s)"
  "access_token (display_header msg s) = access_token s"
  by (simp_all add: display_header_def Let_def)

lemma display_attachments_only_exceptions:
  assumes held: "truthy (access_token s)" and ex: "only_exceptions e"
  shows "fst (display_attachments e msg s) = Inr ()"
    and "fetched_ids (trace (snd (display_attachments e msg s))) = fetched_ids (trace s)"
proof -
  have both: "fst (display_attachments e msg s) = Inr ()
      \<and> fetched_ids (trace (snd (display_attachments e msg s))) = fetched_ids (trace s)"
  proof (cases "hasAttachments msg \<and> truthy (msg_id msg)")
    case False
    then show ?thesis
      by (auto simp add: display_attachments_def split: option.splits)
  next
    case True
    then obtain i where mid: "msg_id msg = Some i" "i \<noteq> []"
      by (cases "msg_id msg") auto
    note at = get_attachments_held[OF held, of e i]
    obtain r1 s1 where g: "get_attachments e i s = (r1, s1)" by (cases "get_attachments e i s")
    from at g have r1: "r1 = graph_attachments e i"
      and f1: "fetched_ids (trace s1) = fetched_ids (trace s)" by simp_all
    show ?thesis
    proof (cases "graph_attachments e i")
      case (Inl x)
      have "is_Exception x" using ex Inl by (auto simp add: only_exceptions_def)
      with True mid g r1 f1 Inl show ?thesis by (simp add: display_attachments_def)
    next
      case (Inr attachments)
      with True mid g r1 f1 show ?thesis by (simp add: display_attachments_def)
    qed
  qed
  from both show "fst (display_attachments e msg s) = Inr ()" by simp
  from both show "fetched_ids (trace (snd (display_attachments e msg s))) = fetched_ids (trace s)"
    by simp
qed

lemma process_message_only_exceptions:
  assumes held: "truthy (access_token s)" and ex: "only_exceptions e"
  shows "fst (process_message c e msg s) = Inr ()"
    and "forwarding_configured c \<Longrightarrow>
         fetched_ids (trace (snd (process_message c e msg s)))
           = fetched_ids (trace s) @ forwardable_id msg"
    and "truthy (access_token (snd (process_message c e msg s)))"
proof -
  have h0: "truthy (access_token (display_header msg s))" using held by simp
  obtain r1 s1 where d: "display_attachments e msg (display_header msg s) = (r1, s1)"
    by (cases "display_attachments e msg (display_header msg s)")
  from display_attachments_only_exceptions[OF h0 ex, of msg] d
  have r1: "r1 = Inr ()" and f1: "fetched_ids (trace s1) = fetched_ids (trace s)" by simp_all
  have held1: "truthy (access_token s1)"
    using token_kept_truthy[OF display_attachments_kept[OF d h0] h0] .
  have pm: "process_message c e msg s = forward_message c e msg s1"
    using d r1 by (simp add: process_message_def)
  show "fst (process_message c e msg s) = Inr ()"
    unfolding pm by (rule forward_message_fetches(1)[OF held1 ex])
  show "forwarding_configured c \<Longrightarrow>
         fetched_ids (trace (snd (process_message c e msg s)))
           = fetched_ids (trace s) @ forwardable_id msg"
    unfolding pm using forward_message_fetches(2)[OF held1 ex, of c msg] f1 by simp
  show "truthy (access_token (snd (process_message c e msg s)))"
    using token_kept_truthy[OF process_message_kept[OF prod.collapse[symmetric] held] held] .
qed

lemma process_messages_only_exceptions:
  assumes "truthy (access_token s)" and "only_exceptions e"
  shows "fst (process_messages c e msgs s) = Inr ()
     \<and> (forwarding_configured c \<longrightarrow>
         fetched_ids (trace (snd (process_messages c e msgs s)))
           = fetched_ids (trace s) @ forwardable_ids msgs)"
  using assms
proof (induction msgs arbitrary: s)
  case Nil
  then show ?case by (simp add: forwardable_ids_def)
next
  case (Cons msg rest)
  obtain r1 s1 where p: "process_message c e msg s = (r1, s1)"
    by (cases "process_message c e msg s")
  note pm = process_message_only_exceptions[OF Cons.prems, of c msg]
  from pm(1) p have r1: "r1 = Inr ()" by simp
  from pm(3) p have held1: "truthy (access_token s1)" by simp
  have f1: "forwarding_configured c \<Longrightarrow>
      fetched_ids (trace s1) = fetched_ids (trace s) @ forwardable_id msg"
    using pm(2) p by simp
  have step: "process_messages c e (msg # rest) s = process_messages c e rest s1"
    using p r1 by simp
  from Cons.IH[OF held1 Cons.prems(2)] f1 show ?case
    unfolding step by (simp add: forwardable_ids_def del: forwardable_id.simps)
qed

lemma ensure_token_fetched:
  "fetched_ids (trace (snd (ensure_token e s))) = fetched_ids (trace s)"
  by (simp add: ensure_token_def get_access_token_def Let_def fetched_ids_def
        split: sum.splits option.splits)

lemma get_new_messages_fetched:
  "fetched_ids (trace (snd (get_new_messages e f l s))) = fetched_ids (trace s)"
proof -
  obtain r0 s0 where t: "ensure_token e s = (r0, s0)" by (cases "ensure_token e s")
  have f0: "fetched_ids (trace s0) = fetched_ids (trace s)"
    using ensure_token_fetched[of e s] t by simp
  show ?thesis
  proof (cases r0)
    case (Inl x)
    with t f0 show ?thesis by (simp add: get_new_messages_no_token)
  next
    case (Inr u)
    have held: "truthy (access_token s0)" using ensure_token_Inr t Inr by blast
    have eq: "get_new_messages e f l s = get_new_messages e f l s0"
      using get_new_messages_after_token t Inr by blast
    have "fetched_ids (trace (snd (get_new_messages e f l s0))) = fetched_ids (trace s0)"
      unfolding get_new_messages_unfold[OF held]
      by (simp add: Let_def fetched_ids_def split: sum.splits list.splits option.splits)
    with eq f0 show ?thesis by simp
  qed
qed

lemma get_new_messages_Inr_held:
  assumes "fst (get_new_messages e f l s) = Inr msgs"
  shows "truthy (access_token (snd (get_new_messages e f l s)))"
proof -
  from assms obtain u s0 where tok: "ensure_token e s = (Inr u, s0)"
    by (rule get_new_messages_Inr_token)
  have held: "truthy (access_token s0)" using ensure_token_Inr[OF tok] .
  have eq: "get_new_messages e f l s = get_new_messages e f l s0"
    using get_new_messages_after_token[OF tok] .
  from token_kept_truthy[OF get_new_messages_kept[OF prod.collapse[symmetric] held] held] eq
  show ?thesis by simp
qed

text \<open>A cycle in which no call is interrupted processes the whole batch.\<close>

lemma check_for_new_emails_whole_batch:
  assumes ex: "only_exceptions e" and batch: "fst (get_new_messages e ''inbox'' 50 s) = Inr msgs"
  shows "fst (check_for_new_emails c e s) = Inr msgs"
    and "forwarding_configured c \<Longrightarrow>
         fetched_ids (trace (snd (check_for_new_emails c e s)))
           = fetched_ids (trace s) @ forwardable_ids msgs"
proof -
  let ?s1 = "snd (get_new_messages e ''inbox'' 50 s)"
  have held1: "truthy (access_token ?s1)" using get_new_messages_Inr_held[OF batch] .
  obtain r2 s2 where p: "process_messages c e msgs ?s1 = (r2, s2)"
    by (cases "process_messages c e msgs ?s1")
  from process_messages_only_exceptions[OF held1 ex, of c msgs] p
  have r2: "r2 = Inr ()"
    and f2: "forwarding_configured c \<Longrightarrow>
        fetched_ids (trace s2) = fetched_ids (trace ?s1) @ forwardable_ids msgs"
    by simp_all
  have ch: "check_for_new_emails c e s = (Inr msgs, s2)"
    using check_for_new_emails_processes[OF batch, of c] p r2 by simp
  show "fst (check_for_new_emails c e s) = Inr msgs" using ch by simp
  show "forwarding_configured c \<Longrightarrow>
         fetched_ids (trace (snd (check_for_new_emails c e s)))
           = fetched_ids (trace s) @ forwardable_ids msgs"
    using ch f2 get_new_messages_fetched[of e "''inbox''" 50 s] by simp
qed

section \<open>The loop and its exit codes\<close>

lemma quiet_sleep [simp]: "quiet is_sleep"
  by (simp add: quiet_def)





lemma sleeps_simps [simp]:
  "sleeps [] = 0"
  "sleeps (evs @ evs') = sleeps evs + sleeps evs'"
  "sleeps (ev # evs) = (if is_sleep ev then 1 else 0) + sleeps evs"
  by (simp_all add: sleeps_def)









section \<open>The first run and the write of the cursor\<close>

lemma drop_last_processed_None [simp]: "drop_last_processed None response = response"
  by (simp add: drop_last_processed_def)

lemma stored_Missing:
  "tracking_file s = Missing \<Longrightarrow> stored_timestamp s = None"
  "tracking_file s = Missing \<Longrightarrow> stored_id s = None"
  by (simp_all add: stored_timestamp_def stored_id_def load_last_email_timestamp_def)

lemma load_Json:
  "tracking_file s = Json d \<Longrightarrow>
   fst (load_last_email_timestamp s) = (last_received_datetime d, last_message_id d)"
  by (simp add: load_last_email_timestamp_def)

section \<open>The order of events in a cycle\<close>

lemma appended_refl [simp]: "appended P s s"
  by (simp add: appended_def)






























lemma get_new_messages_tokened_result:
  assumes tok: "ensure_token e s = (Inr u, s0)"
    and resp: "graph_messages e f (build_params l (stored_timestamp s)) = Inr response"
  shows "fst (get_new_messages e f l s) =
           (case write_raises e of
              None \<Rightarrow> Inr (drop_last_processed (stored_id s) response)
            | Some x \<Rightarrow>
                if drop_last_processed (stored_id s) response = [] then Inr [] else Inl x)"
  unfolding get_new_messages_tokened(1)[OF tok]
  by (simp add: resp split: list.splits option.splits)

lemma drop_last_processed_mem:
  "m \<in> set (drop_last_processed lid response) \<longleftrightarrow>
     m \<in> set response \<and> (truthy lid \<longrightarrow> msg_id m \<noteq> lid)"
  by (auto simp add: drop_last_processed_def)

section \<open>Cancellation inside a cycle\<close>












section \<open>Claims\<close>

subsection \<open>The first run\<close>

text \<open>
  Claim C1, as stated, fails: the backlog that the first query returns is forwarded.
  With no tracking file and forwarding configured, the first cycle over a mailbox that
  holds two older messages returns both as the batch, fetches the raw content of both
  and submits both to the relay.
\<close>

theorem first_run_backlog_counterexample:
  "tracking_file (new_reader example_config Missing) = Missing
   \<and> trace (new_reader example_config Missing) = [Print MonitorStarted]
   \<and> fst (check_for_new_emails example_config (answering (mailbox_service [m2, m1]))
        (new_reader example_config Missing)) = Inr [m2, m1]
   \<and> fetched_ids (trace (snd (check_for_new_emails example_config
        (answering (mailbox_service [m2, m1])) (new_reader example_config Missing))))
       = [''m2'', ''m1'']
   \<and> filter (\<lambda>ev. case ev of SmtpSendmail a r b \<Rightarrow> True | _ \<Rightarrow> False)
        (trace (snd (check_for_new_emails example_config
          (answering (mailbox_service [m2, m1])) (new_reader example_config Missing))))
       = [SmtpSendmail ''monitor@example.org'' [''dest@example.org''] ''MIME of m2'',
          SmtpSendmail ''monitor@example.org'' [''dest@example.org''] ''MIME of m1'']"
  by code_simp

text \<open>
  Claim C1, amended. On a first run (no tracking file) with a token in hand, the query
  that is sent asks for the \<open>l\<close> most recent messages, newest first, with no filter, and
  the function returns the service's answer unchanged as the batch (unless the answer is
  not empty and the write of the cursor raises something other than an \<^verbatim>\<open>IOError\<close>,
  which then leaves the function); the cursor of its first message is written when the
  write succeeds. In the cycle, with forwarding configured
  and no call interrupted, every message of that batch that has an id is fetched for
  forwarding in that same cycle, in batch order: the backlog is forwarded.
\<close>

theorem first_run_forwards_backlog:
  assumes first: "tracking_file s = Missing"
    and tok: "ensure_token e s = (Inr u, s0)"
    and resp: "graph_messages e f (build_params l None) = Inr batch"
  shows "build_params l (stored_timestamp s) =
           \<lparr>top_q = l, select_q = select_fields, orderby_q = ''receivedDateTime desc'',
            filter_q = None\<rparr>
     \<and> HttpGetMessages (mailbox_email s0) (access_token s0) f
           (build_params l (stored_timestamp s))
         \<in> set (trace (snd (get_new_messages e f l s)))
     \<and> fst (get_new_messages e f l s) =
           (case write_raises e of
              None \<Rightarrow> Inr batch
            | Some x \<Rightarrow> if batch = [] then Inr [] else Inl x)
     \<and> (\<forall>m ms. batch = m # ms \<longrightarrow> disk_write e = WriteOk \<longrightarrow>
          tracking_file (snd (get_new_messages e f l s)) = Json (cursor_of e m))
     \<and> (f = ''inbox'' \<longrightarrow> l = 50 \<longrightarrow> only_exceptions e \<longrightarrow> write_raises e = None \<longrightarrow>
          forwarding_configured c \<longrightarrow>
          fst (check_for_new_emails c e s) = Inr batch
          \<and> fetched_ids (trace (snd (check_for_new_emails c e s)))
               = fetched_ids (trace s) @ forwardable_ids batch)"
proof -
  note st = stored_Missing[OF first]
  have a: "build_params l (stored_timestamp s) =
           \<lparr>top_q = l, select_q = select_fields, orderby_q = ''receivedDateTime desc'',
            filter_q = None\<rparr>"
    by (simp add: st build_params_def)
  have b: "HttpGetMessages (mailbox_email s0) (access_token s0) f
           (build_params l (stored_timestamp s))
         \<in> set (trace (snd (get_new_messages e f l s)))"
    by (rule get_new_messages_query_sent[OF tok])
  have r: "fst (get_new_messages e f l s) =
           (case write_raises e of
              None \<Rightarrow> Inr batch
            | Some x \<Rightarrow> if batch = [] then Inr [] else Inl x)"
    using get_new_messages_tokened_result[OF tok, of f l batch] resp st
    by (simp split: option.splits)
  have w: "tracking_file (snd (get_new_messages e f l s)) = Json (cursor_of e m)"
    if "batch = m # ms" "disk_write e = WriteOk" for m ms
  proof -
    have "write_raises e = None" using that(2) by (simp add: write_raises_def)
    with r that(1) have "fst (get_new_messages e f l s) = Inr (m # ms)" by simp
    from get_new_messages_writes_head[OF this that(2)] show ?thesis .
  qed
  have c: "fst (check_for_new_emails c e s) = Inr batch
          \<and> fetched_ids (trace (snd (check_for_new_emails c e s)))
               = fetched_ids (trace s) @ forwardable_ids batch"
    if "f = ''inbox''" "l = 50" "only_exceptions e" "write_raises e = None"
      "forwarding_configured c"
  proof -
    from r that(1,2,4) have "fst (get_new_messages e ''inbox'' 50 s) = Inr batch" by simp
    from check_for_new_emails_whole_batch[OF that(3) this, of c] that(5) show ?thesis by simp
  qed
  show ?thesis using a b r w c by blast
qed

theorem first_run_forwards_backlog_witness:
  "filter_q (build_params 50 (stored_timestamp (new_reader example_config Missing))) = None
   \<and> fst (get_new_messages (answering (mailbox_service [m2, m1])) ''inbox'' 50
        (new_reader example_config Missing)) = Inr [m2, m1]
   \<and> tracking_file (snd (get_new_messages (answering (mailbox_service [m2, m1])) ''inbox'' 50
        (new_reader example_config Missing)))
       = Json (cursor_of (answering (mailbox_service [m2, m1])) m2)
   \<and> fetched_ids (trace (snd (check_for_new_emails example_config
        (answering (mailbox_service [m2, m1])) (new_reader example_config Missing))))
       = [''m2'', ''m1'']"
proof -
  let ?e = "answering (mailbox_service [m2, m1])"
  let ?s = "new_reader example_config Missing"
  have first: "tracking_file ?s = Missing" by (simp add: new_reader_def)
  have tok: "ensure_token ?e ?s = (Inr (), snd (ensure_token ?e ?s))"
    by code_simp
  have resp: "graph_messages ?e ''inbox'' (build_params 50 None) = Inr [m2, m1]"
    by code_simp
  have ok: "disk_write ?e = WriteOk" by (simp add: answering_def)
  have wr: "write_raises ?e = None" by (simp add: write_raises_def answering_def)
  have ex: "only_exceptions ?e"
    by (simp add: only_exceptions_def answering_def)
  have cfg: "forwarding_configured example_config"
    by (simp add: forwarding_configured_def example_config_def)
  have ids: "forwardable_ids [m2, m1] = [''m2'', ''m1'']"
    by (simp add: forwardable_ids_def m1_def m2_def)
  have t0: "fetched_ids (trace ?s) = []" by (simp add: new_reader_def)
  from first_run_forwards_backlog[OF first tok resp, of example_config] ok wr ex cfg ids t0
  show ?thesis by (simp add: first)
qed

subsection \<open>The write of the cursor\<close>

text \<open>
  Claim C2, as stated, fails: the write is in place. With a valid cursor on disk, a save
  that is stopped after the open leaves a file from which no cursor can be read, and so
  does a save whose dump fails; a completed save is a truncation followed by a dump into
  the same file.
\<close>

theorem interrupted_save_counterexample:
  "fst (load_last_email_timestamp
          (holding (Json (cursor_of (answering (\<lambda>f p. Inr [])) m2))))
     = (Some ''2024-01-02T10:00:00Z'', Some ''m2'')
   \<and> fst (load_last_email_timestamp
          (save_stopped_at AfterOpen (answering (\<lambda>f p. Inr [])) m3
             (holding (Json (cursor_of (answering (\<lambda>f p. Inr [])) m2)))))
     = (None, None)
   \<and> tracking_file
          (snd (save_last_email_timestamp
             ((answering (\<lambda>f p. Inr []))\<lparr>disk_write := DumpFails (IOError ''No space left on device'')\<rparr>)
             m3 (holding (Json (cursor_of (answering (\<lambda>f p. Inr [])) m2)))))
     = Unparseable
   \<and> filter is_file_event
        (trace (snd (save_last_email_timestamp (answering (\<lambda>f p. Inr [])) m3
           (holding (Json (cursor_of (answering (\<lambda>f p. Inr [])) m2))))))
     = [FileTruncate, FileDump (cursor_of (answering (\<lambda>f p. Inr [])) m3)]"
  by code_simp

text \<open>
  Claim C2, amended. The record that is saved is the message's timestamp, id, subject and
  sender address, and the current time. The save opens the tracking file for writing,
  which truncates it, and dumps the record into it. A completed save leaves exactly
  that record, and the next load reads its timestamp and id back. A save whose open
  fails with an \<^verbatim>\<open>IOError\<close> leaves the state as it was but for a warning; any other
  exception leaves the function, the state as it was. A save whose dump fails, or that
  is stopped between the open and the dump, leaves a file from which the load reads no
  cursor: the previous cursor is lost, and no older cursor is ever put in its place.
\<close>

theorem save_in_place:
  "cursor_of e m =
     \<lparr>last_received_datetime = receivedDateTime m, last_message_id = msg_id m,
      last_subject = subject m, last_from = from_address m, last_updated = now e\<rparr>
   \<and> (disk_write e = WriteOk \<longrightarrow>
        fst (save_last_email_timestamp e m s) = Inr ()
        \<and> tracking_file (snd (save_last_email_timestamp e m s)) = Json (cursor_of e m)
        \<and> fst (load_last_email_timestamp (snd (save_last_email_timestamp e m s)))
            = (receivedDateTime m, msg_id m)
        \<and> filter is_file_event (trace (snd (save_last_email_timestamp e m s)))
            = filter is_file_event (trace s) @ [FileTruncate, FileDump (cursor_of e m)])
   \<and> (\<forall>x. disk_write e = OpenFails x \<longrightarrow>
        save_last_email_timestamp e m s =
          (if is_IOError x then (Inr (), emit (Print (TrackingSaveWarning x)) s) else (Inl x, s)))
   \<and> (\<forall>x. disk_write e = DumpFails x \<longrightarrow>
        fst (save_last_email_timestamp e m s) = (if is_IOError x then Inr () else Inl x)
        \<and> tracking_file (snd (save_last_email_timestamp e m s)) = Unparseable
        \<and> fst (load_last_email_timestamp (snd (save_last_email_timestamp e m s))) = (None, None))
   \<and> save_stopped_at BeforeOpen e m s = s
   \<and> tracking_file (save_stopped_at AfterOpen e m s) = Unparseable
   \<and> fst (load_last_email_timestamp (save_stopped_at AfterOpen e m s)) = (None, None)
   \<and> tracking_file (save_stopped_at AfterDump e m s) = Json (cursor_of e m)"
proof -
  have a: "cursor_of e m =
     \<lparr>last_received_datetime = receivedDateTime m, last_message_id = msg_id m,
      last_subject = subject m, last_from = from_address m, last_updated = now e\<rparr>"
    by (simp add: cursor_of_def)
  have ok: "fst (save_last_email_timestamp e m s) = Inr ()
        \<and> tracking_file (snd (save_last_email_timestamp e m s)) = Json (cursor_of e m)
        \<and> fst (load_last_email_timestamp (snd (save_last_email_timestamp e m s)))
            = (receivedDateTime m, msg_id m)
        \<and> filter is_file_event (trace (snd (save_last_email_timestamp e m s)))
            = filter is_file_event (trace s) @ [FileTruncate, FileDump (cursor_of e m)]"
    if w: "disk_write e = WriteOk"
  proof -
    have r: "fst (save_last_email_timestamp e m s) = Inr ()"
      using w by (simp add: save_last_email_timestamp_def)
    have f: "tracking_file (snd (save_last_email_timestamp e m s)) = Json (cursor_of e m)"
      using w by (simp add: save_file)
    have l: "fst (load_last_email_timestamp (snd (save_last_email_timestamp e m s)))
            = (receivedDateTime m, msg_id m)"
      using load_Json[OF f] by (simp add: cursor_of_def)
    have t: "filter is_file_event (trace (snd (save_last_email_timestamp e m s)))
            = filter is_file_event (trace s) @ [FileTruncate, FileDump (cursor_of e m)]"
      using w
      by (simp add: save_last_email_timestamp_def open_w_def json_dump_def verbose_def Let_def)
    show ?thesis using r f l t by simp
  qed
  have op: "save_last_email_timestamp e m s =
          (if is_IOError x then (Inr (), emit (Print (TrackingSaveWarning x)) s) else (Inl x, s))"
    if "disk_write e = OpenFails x" for x
    using that by (simp add: save_last_email_timestamp_def save_except_def)
  have du: "fst (save_last_email_timestamp e m s) = (if is_IOError x then Inr () else Inl x)
        \<and> tracking_file (snd (save_last_email_timestamp e m s)) = Unparseable
        \<and> fst (load_last_email_timestamp (snd (save_last_email_timestamp e m s))) = (None, None)"
    if "disk_write e = DumpFails x" for x
  proof -
    have r: "fst (save_last_email_timestamp e m s) = (if is_IOError x then Inr () else Inl x)"
      using that by (simp add: save_last_email_timestamp_def save_except_def)
    have f: "tracking_file (snd (save_last_email_timestamp e m s)) = Unparseable"
      using that by (simp add: save_file)
    from r f show ?thesis by (simp add: load_last_email_timestamp_def)
  qed
  have st: "save_stopped_at BeforeOpen e m s = s
   \<and> tracking_file (save_stopped_at AfterOpen e m s) = Unparseable
   \<and> fst (load_last_email_timestamp (save_stopped_at AfterOpen e m s)) = (None, None)
   \<and> tracking_file (save_stopped_at AfterDump e m s) = Json (cursor_of e m)"
    by (simp add: open_w_def json_dump_def load_last_email_timestamp_def)
  show ?thesis using a ok op du st by blast
qed

theorem save_in_place_witness:
  "tracking_file (snd (save_last_email_timestamp (answering (\<lambda>f p. Inr [])) m3
       (holding (Json (cursor_of (answering (\<lambda>f p. Inr [])) m2)))))
     = Json (cursor_of (answering (\<lambda>f p. Inr [])) m3)
   \<and> fst (load_last_email_timestamp (snd (save_last_email_timestamp (answering (\<lambda>f p. Inr [])) m3
       (holding (Json (cursor_of (answering (\<lambda>f p. Inr [])) m2))))))
     = (receivedDateTime m3, msg_id m3)
   \<and> tracking_file (snd (save_last_email_timestamp
       ((answering (\<lambda>f p. Inr []))\<lparr>disk_write := OpenFails (IOError ''Permission denied'')\<rparr>)
       m3 (holding (Json (cursor_of (answering (\<lambda>f p. Inr [])) m2)))))
     = Json (cursor_of (answering (\<lambda>f p. Inr [])) m2)
   \<and> fst (save_last_email_timestamp
       ((answering (\<lambda>f p. Inr []))\<lparr>disk_write := OpenFails KeyboardInterrupt\<rparr>)
       m3 (holding (Json (cursor_of (answering (\<lambda>f p. Inr [])) m2))))
     = Inl KeyboardInterrupt
   \<and> fst (load_last_email_timestamp (snd (save_last_email_timestamp
       ((answering (\<lambda>f p. Inr []))\<lparr>disk_write := DumpFails (IOError ''No space left on device'')\<rparr>)
       m3 (holding (Json (cursor_of (answering (\<lambda>f p. Inr [])) m2))))))
     = (None, None)"
proof -
  let ?e = "answering (\<lambda>f p. Inr [])"
  let ?s = "holding (Json (cursor_of ?e m2))"
  have ok: "disk_write ?e = WriteOk" by (simp add: answering_def)
  have op: "disk_write (?e\<lparr>disk_write := OpenFails (IOError ''Permission denied'')\<rparr>)
      = OpenFails (IOError ''Permission denied'')" by simp
  have ki: "disk_write (?e\<lparr>disk_write := OpenFails KeyboardInterrupt\<rparr>)
      = OpenFails KeyboardInterrupt" by simp
  have du: "disk_write (?e\<lparr>disk_write := DumpFails (IOError ''No space left on device'')\<rparr>)
      = DumpFails (IOError ''No space left on device'')" by simp
  from save_in_place[of ?e m3 ?s]
    save_in_place[of "?e\<lparr>disk_write := OpenFails (IOError ''Permission denied'')\<rparr>" m3 ?s]
    save_in_place[of "?e\<lparr>disk_write := OpenFails KeyboardInterrupt\<rparr>" m3 ?s]
    save_in_place[of "?e\<lparr>disk_write := DumpFails (IOError ''No space left on device'')\<rparr>" m3 ?s]
    ok op ki du
  show ?thesis by simp
qed

subsection \<open>Disabled forwarding\<close>

text \<open>
  Claim C6. When forwarding is disabled by configuration, or no relay host is configured,
  or the recipient list is empty (no non-empty address is left in \<^verbatim>\<open>SMTP_TO\<close>),
  \<open>forward_message\<close> returns normally for every message, environment and state, and the
  state it returns is the state it was given: no event is added to the trace (no
  token request, no fetch of the raw message, no SMTP connection, no print).
\<close>

theorem forward_message_noop:
  assumes "\<not> ENABLE_SMTP_FORWARD c \<or> SMTP_HOST c = [] \<or> normalize_recipients (Lst (SMTP_TO c)) = []"
  shows "forward_message c e msg s = (Inr (), s)"
  using assms by (auto simp add: forward_message_def Let_def)

theorem forward_message_noop_witness:
  "forward_message (example_config\<lparr>ENABLE_SMTP_FORWARD := False\<rparr>) (answering (\<lambda>f p. Inr [])) m1
     (holding Missing) = (Inr (), holding Missing)
   \<and> forward_message (example_config\<lparr>SMTP_HOST := []\<rparr>) (answering (\<lambda>f p. Inr [])) m1
     (holding Missing) = (Inr (), holding Missing)
   \<and> forward_message (example_config\<lparr>SMTP_TO := ['''']\<rparr>) (answering (\<lambda>f p. Inr [])) m1
     (holding Missing) = (Inr (), holding Missing)
   \<and> trace (snd (forward_message example_config (answering (\<lambda>f p. Inr [])) m1 (holding Missing)))
       \<noteq> trace (holding Missing)"
proof -
  have a: "\<not> ENABLE_SMTP_FORWARD (example_config\<lparr>ENABLE_SMTP_FORWARD := False\<rparr>)" by simp
  have b: "SMTP_HOST (example_config\<lparr>SMTP_HOST := []\<rparr>) = []" by simp
  have c: "normalize_recipients (Lst (SMTP_TO (example_config\<lparr>SMTP_TO := ['''']\<rparr>))) = []" by simp
  have d: "trace (snd (forward_message example_config (answering (\<lambda>f p. Inr [])) m1 (holding Missing)))
       \<noteq> trace (holding Missing)"
    by (simp add: forward_message_def example_config_def answering_def m1_def holding_def
          new_reader_def get_message_mime_def ensure_token_def smtp_session_def smtp_step_def Let_def)
  show ?thesis
    using forward_message_noop[of "example_config\<lparr>ENABLE_SMTP_FORWARD := False\<rparr>" "answering (\<lambda>f p. Inr [])" m1 "holding Missing"]
      forward_message_noop[of "example_config\<lparr>SMTP_HOST := []\<rparr>" "answering (\<lambda>f p. Inr [])" m1 "holding Missing"]
      forward_message_noop[of "example_config\<lparr>SMTP_TO := ['''']\<rparr>" "answering (\<lambda>f p. Inr [])" m1 "holding Missing"]
      a b c d by simp
qed

subsection \<open>Lazy acquisition of the bearer token\<close>



subsection \<open>The stored timestamp never goes back\<close>




subsection \<open>The message already processed is dropped\<close>

text \<open>
  Claim C3. Let the stored cursor carry a non-empty \<^verbatim>\<open>last_message_id\<close> and let the
  token be there. Whatever list the service answers, with whatever timestamps, what the
  query returns is that list without every message whose id equals the stored id, in the
  same order (it returns unless the list that is left is not empty and the write of the
  cursor raises something other than an \<^verbatim>\<open>IOError\<close>, which then leaves the function). If the answer consists only of such messages (the timestamp tie where
  the processed message comes back alone), the result is empty and the tracking file
  is left as it was.
\<close>

theorem collision_filter:
  assumes tok: "ensure_token e s = (Inr u, s0)"
    and lid: "stored_id s = Some i" "i \<noteq> []"
    and resp: "graph_messages e f (build_params l (stored_timestamp s)) = Inr response"
  shows "fst (get_new_messages e f l s) =
           (case write_raises e of
              None \<Rightarrow> Inr (filter (\<lambda>m. msg_id m \<noteq> Some i) response)
            | Some x \<Rightarrow>
                if filter (\<lambda>m. msg_id m \<noteq> Some i) response = [] then Inr [] else Inl x)
       \<and> (\<forall>msgs. fst (get_new_messages e f l s) = Inr msgs \<longrightarrow>
             msgs = filter (\<lambda>m. msg_id m \<noteq> Some i) response)
       \<and> (\<forall>m\<in>set response. msg_id m = Some i \<longrightarrow>
             m \<notin> set (filter (\<lambda>m. msg_id m \<noteq> Some i) response))
       \<and> ((\<forall>m\<in>set response. msg_id m = Some i) \<longrightarrow>
             fst (get_new_messages e f l s) = Inr []
             \<and> tracking_file (snd (get_new_messages e f l s)) = tracking_file s)"
proof -
  have d: "drop_last_processed (stored_id s) response = filter (\<lambda>m. msg_id m \<noteq> Some i) response"
    using lid drop_last_processed_filter by simp
  have r: "fst (get_new_messages e f l s) =
           (case write_raises e of
              None \<Rightarrow> Inr (filter (\<lambda>m. msg_id m \<noteq> Some i) response)
            | Some x \<Rightarrow>
                if filter (\<lambda>m. msg_id m \<noteq> Some i) response = [] then Inr [] else Inl x)"
    using get_new_messages_tokened_result[OF tok resp] d by (simp split: option.splits)
  have q: "msgs = filter (\<lambda>m. msg_id m \<noteq> Some i) response"
    if "fst (get_new_messages e f l s) = Inr msgs" for msgs
    using get_new_messages_Inr_response[OF that] resp d by auto
  have tie: "fst (get_new_messages e f l s) = Inr []
             \<and> tracking_file (snd (get_new_messages e f l s)) = tracking_file s"
    if all: "\<forall>m\<in>set response. msg_id m = Some i"
  proof -
    have e: "filter (\<lambda>m. msg_id m \<noteq> Some i) response = []"
      using all by (simp add: filter_empty_conv)
    have "fst (get_new_messages e f l s) = Inr []"
      using r e by (simp split: option.splits)
    then show ?thesis
      using get_new_messages_tokened(2)[OF tok, of f l] resp d e by simp
  qed
  show ?thesis using r q tie by simp
qed

theorem collision_filter_witness:
  "fst (get_new_messages (answering (\<lambda>f p. Inr [m2])) ''inbox'' 50
         (holding (Json (cursor_of (answering (\<lambda>f p. Inr [])) m2)))) = Inr []
   \<and> tracking_file (snd (get_new_messages (answering (\<lambda>f p. Inr [m2])) ''inbox'' 50
         (holding (Json (cursor_of (answering (\<lambda>f p. Inr [])) m2)))))
       = Json (cursor_of (answering (\<lambda>f p. Inr [])) m2)
   \<and> receivedDateTime m2 = stored_timestamp (holding (Json (cursor_of (answering (\<lambda>f p. Inr [])) m2)))
   \<and> fst (get_new_messages (answering (\<lambda>f p. Inr [m3, m2])) ''inbox'' 50
         (holding (Json (cursor_of (answering (\<lambda>f p. Inr [])) m2)))) = Inr [m3]"
proof -
  let ?s = "holding (Json (cursor_of (answering (\<lambda>f p. Inr [])) m2))"
  let ?e = "answering (\<lambda>f p. Inr [m2])"
  have tok: "ensure_token ?e ?s = (Inr (), ?s)"
    by (simp add: ensure_token_def)
  have lid: "stored_id ?s = Some ''m2''" "''m2'' \<noteq> []"
    by (simp_all add: stored_id_Json[of _ "cursor_of (answering (\<lambda>f p. Inr [])) m2"] cursor_of_def m2_def)
  have resp: "graph_messages ?e ''inbox'' (build_params 50 (stored_timestamp ?s)) = Inr [m2]"
    by (simp add: answering_def)
  have all: "\<forall>m\<in>set [m2]. msg_id m = Some ''m2''"
    by (simp add: m2_def)
  have f: "tracking_file ?s = Json (cursor_of (answering (\<lambda>f p. Inr [])) m2)"
    by simp
  have t: "receivedDateTime m2 = stored_timestamp ?s"
    by (simp add: stored_timestamp_Json[of _ "cursor_of (answering (\<lambda>f p. Inr [])) m2"] cursor_of_def)
  let ?e' = "answering (\<lambda>f p. Inr [m3, m2])"
  have tok': "ensure_token ?e' ?s = (Inr (), ?s)"
    by (simp add: ensure_token_def)
  have resp': "graph_messages ?e' ''inbox'' (build_params 50 (stored_timestamp ?s)) = Inr [m3, m2]"
    by (simp add: answering_def)
  have wr: "write_raises ?e' = None" by (simp add: write_raises_def answering_def)
  have fl: "filter (\<lambda>m. msg_id m \<noteq> Some ''m2'') [m3, m2] = [m3]"
    by (simp add: m2_def m3_def)
  note th = collision_filter[OF tok lid resp]
  note th' = collision_filter[OF tok' lid resp']
  have r: "fst (get_new_messages ?e' ''inbox'' 50 ?s) = Inr [m3]"
    using th'[THEN conjunct1] unfolding fl wr by simp
  from th[THEN conjunct2, THEN conjunct2, THEN conjunct2, THEN mp, OF all] f t r
  show ?thesis by simp
qed

subsection \<open>The strict filter and timestamp ties\<close>

text \<open>
  Claim C10, as stated, fails: that a message with the cursor's timestamp and another
  id is not returned is not the client's doing. The cursor is that of \<open>m2\<close>, the filter
  sent is \<^verbatim>\<open>receivedDateTime gt\<close> its timestamp, and against a service that also answers
  the messages carrying that timestamp the query returns \<open>m2b\<close> as new: it has the
  cursor's timestamp and another id.
\<close>

theorem tie_returned_counterexample:
  "stored_timestamp (holding (Json (cursor_of (answering (\<lambda>f p. Inr [])) m2)))
     = Some ''2024-01-02T10:00:00Z''
   \<and> stored_id (holding (Json (cursor_of (answering (\<lambda>f p. Inr [])) m2))) = Some ''m2''
   \<and> filter_q (build_params 50 (stored_timestamp
         (holding (Json (cursor_of (answering (\<lambda>f p. Inr [])) m2)))))
       = Some ''receivedDateTime gt 2024-01-02T10:00:00Z''
   \<and> fst (get_new_messages (answering (tie_service [m2b, m2, m1])) ''inbox'' 50
         (holding (Json (cursor_of (answering (\<lambda>f p. Inr [])) m2)))) = Inr [m2b]
   \<and> receivedDateTime m2b = Some ''2024-01-02T10:00:00Z''
   \<and> msg_id m2b = Some ''m2b''"
  by code_simp

text \<open>
  Claim C10, amended. With a stored non-empty timestamp \<open>ts\<close>, the query that is sent
  carries the filter \<^verbatim>\<open>receivedDateTime gt ts\<close>. What the query returns is the service's
  answer without the messages that bear the stored id (unless the write of the cursor
  raises): a message is in the result exactly when the service answered it and, a
  non-empty id being stored, its id is not that one. The client removes no other
  message: a message of the answer with timestamp \<open>ts\<close> and another id is returned
  whenever the query returns. Whether such a message is skipped is decided by the
  service alone.
\<close>

theorem strict_filter_sent_ties_kept:
  assumes tok: "ensure_token e s = (Inr u, s0)"
    and ts: "stored_timestamp s = Some ts" "ts \<noteq> []"
  shows "filter_q (build_params l (stored_timestamp s)) = Some (''receivedDateTime gt '' @ ts)
     \<and> HttpGetMessages (mailbox_email s0) (access_token s0) f
           (build_params l (stored_timestamp s))
         \<in> set (trace (snd (get_new_messages e f l s)))
     \<and> (\<forall>response. graph_messages e f (build_params l (stored_timestamp s)) = Inr response \<longrightarrow>
          fst (get_new_messages e f l s) =
            (case write_raises e of
               None \<Rightarrow> Inr (drop_last_processed (stored_id s) response)
             | Some x \<Rightarrow>
                 if drop_last_processed (stored_id s) response = [] then Inr [] else Inl x)
          \<and> (\<forall>m. m \<in> set (drop_last_processed (stored_id s) response) \<longleftrightarrow>
                 m \<in> set response \<and> (truthy (stored_id s) \<longrightarrow> msg_id m \<noteq> stored_id s))
          \<and> (\<forall>m\<in>set response. receivedDateTime m = Some ts \<longrightarrow> msg_id m \<noteq> stored_id s \<longrightarrow>
                (\<forall>msgs. fst (get_new_messages e f l s) = Inr msgs \<longrightarrow> m \<in> set msgs)))
     \<and> (\<forall>msgs. fst (get_new_messages e f l s) = Inr msgs \<longrightarrow>
          (\<exists>response. graph_messages e f (build_params l (stored_timestamp s)) = Inr response
             \<and> msgs = drop_last_processed (stored_id s) response))"
proof -
  have a: "filter_q (build_params l (stored_timestamp s)) = Some (''receivedDateTime gt '' @ ts)"
    using build_params_filter[OF ts(2)] ts(1) by simp
  have b: "HttpGetMessages (mailbox_email s0) (access_token s0) f
           (build_params l (stored_timestamp s))
         \<in> set (trace (snd (get_new_messages e f l s)))"
    by (rule get_new_messages_query_sent[OF tok])
  have c1: "fst (get_new_messages e f l s) =
            (case write_raises e of
               None \<Rightarrow> Inr (drop_last_processed (stored_id s) response)
             | Some x \<Rightarrow>
                 if drop_last_processed (stored_id s) response = [] then Inr [] else Inl x)"
    if "graph_messages e f (build_params l (stored_timestamp s)) = Inr response" for response
    using get_new_messages_tokened_result[OF tok that] .
  have c2: "m \<in> set (drop_last_processed (stored_id s) response) \<longleftrightarrow>
                 m \<in> set response \<and> (truthy (stored_id s) \<longrightarrow> msg_id m \<noteq> stored_id s)"
    for m response
    by (rule drop_last_processed_mem)
  have d: "\<exists>response. graph_messages e f (build_params l (stored_timestamp s)) = Inr response
             \<and> msgs = drop_last_processed (stored_id s) response"
    if "fst (get_new_messages e f l s) = Inr msgs" for msgs
    using get_new_messages_Inr_response[OF that] by blast
  have c3: "m \<in> set msgs"
    if resp: "graph_messages e f (build_params l (stored_timestamp s)) = Inr response"
      and m: "m \<in> set response" "msg_id m \<noteq> stored_id s"
      and r: "fst (get_new_messages e f l s) = Inr msgs" for response m msgs
  proof -
    from d[OF r] resp have "msgs = drop_last_processed (stored_id s) response" by auto
    with m show ?thesis by (simp add: drop_last_processed_keeps)
  qed
  show ?thesis using a b c1 c2 c3 d by blast
qed

theorem strict_filter_sent_ties_kept_witness:
  "filter_q (build_params 50 (stored_timestamp
       (holding (Json (cursor_of (answering (\<lambda>f p. Inr [])) m2)))))
     = Some ''receivedDateTime gt 2024-01-02T10:00:00Z''
   \<and> fst (get_new_messages (answering (tie_service [m3, m2b, m2, m1])) ''inbox'' 50
         (holding (Json (cursor_of (answering (\<lambda>f p. Inr [])) m2)))) = Inr [m3, m2b]
   \<and> m2b \<in> set [m3, m2b]
   \<and> drop_last_processed (stored_id (holding (Json (cursor_of (answering (\<lambda>f p. Inr [])) m2))))
        [m3, m2b, m2] = [m3, m2b]
   \<and> fst (get_new_messages (answering (mailbox_service [m3, m2b, m2, m1])) ''inbox'' 50
         (holding (Json (cursor_of (answering (\<lambda>f p. Inr [])) m2)))) = Inr [m3]"
proof -
  let ?s = "holding (Json (cursor_of (answering (\<lambda>f p. Inr [])) m2))"
  let ?e = "answering (tie_service [m3, m2b, m2, m1])"
  let ?e' = "answering (mailbox_service [m3, m2b, m2, m1])"
  have tok: "ensure_token ?e ?s = (Inr (), ?s)" "ensure_token ?e' ?s = (Inr (), ?s)"
    by (simp_all add: ensure_token_def)
  have ts: "stored_timestamp ?s = Some ''2024-01-02T10:00:00Z''" "''2024-01-02T10:00:00Z'' \<noteq> []"
    by (simp_all add: stored_timestamp_Json[of _ "cursor_of (answering (\<lambda>f p. Inr [])) m2"]
          cursor_of_def m2_def)
  have resp: "graph_messages ?e ''inbox'' (build_params 50 (stored_timestamp ?s)) = Inr [m3, m2b, m2]"
    by code_simp
  have resp': "graph_messages ?e' ''inbox'' (build_params 50 (stored_timestamp ?s)) = Inr [m3]"
    by code_simp
  have wr: "write_raises ?e = None" "write_raises ?e' = None"
    by (simp_all add: write_raises_def answering_def)
  have i: "msg_id m2b \<noteq> stored_id ?s"
    by (simp add: stored_id_Json[of _ "cursor_of (answering (\<lambda>f p. Inr [])) m2"]
          cursor_of_def m2_def m2b_def)
  have t: "receivedDateTime m2b = Some ''2024-01-02T10:00:00Z''"
    by (simp add: m2b_def)
  have dl: "drop_last_processed (stored_id ?s) [m3, m2b, m2] = [m3, m2b]"
    by code_simp
  have dl': "drop_last_processed (stored_id ?s) [m3] = [m3]"
    by code_simp
  note th = strict_filter_sent_ties_kept[OF tok(1) ts, of 50 "''inbox''"]
  note th' = strict_filter_sent_ties_kept[OF tok(2) ts, of 50 "''inbox''"]
  note c = th[THEN conjunct2, THEN conjunct2, THEN conjunct1, rule_format, OF resp]
  note c' = th'[THEN conjunct2, THEN conjunct2, THEN conjunct1, rule_format, OF resp']
  have a: "filter_q (build_params 50 (stored_timestamp ?s))
      = Some ''receivedDateTime gt 2024-01-02T10:00:00Z''"
    using th[THEN conjunct1] by simp
  have r: "fst (get_new_messages ?e ''inbox'' 50 ?s) = Inr [m3, m2b]"
    using c[THEN conjunct1] by (simp add: wr(1) dl)
  have k: "m2b \<in> set [m3, m2b]"
    by (rule c[THEN conjunct2, THEN conjunct2, rule_format, OF _ _ i r]) (simp_all add: t)
  have r': "fst (get_new_messages ?e' ''inbox'' 50 ?s) = Inr [m3]"
    using c'[THEN conjunct1] by (simp add: wr(2) dl')
  show ?thesis using a r k dl r' by blast
qed

subsection \<open>The cursor is written before the batch is processed\<close>




subsection \<open>Forwarding failures are isolated\<close>

text \<open>
  Claim C5. Let forwarding be configured and let every failure of a listing, a fetch or
  an SMTP stage be an \<^verbatim>\<open>Exception\<close>. Forwarding one message with a token in hand always
  returns normally after attempting the fetch; when the fetch fails, or when a stage of
  the SMTP session (connect, STARTTLS, login, submit) fails, the returned state ends
  with the print of that failure. For a whole cycle: the cycle returns the full batch
  (it is not aborted), the fetch is attempted for every message of the batch that has
  an id, in batch order, whatever failed before, and the tracking file holds the cursor
  of the batch's first message when the write succeeded.
\<close>

theorem forwarding_failures_isolated:
  assumes ex: "only_exceptions e" and cfg: "forwarding_configured c"
    and batch: "fst (get_new_messages e ''inbox'' 50 s) = Inr msgs"
    and held: "truthy (access_token st)" and mid: "msg_id msg = Some i" "i \<noteq> []"
  shows "fst (forward_message c e msg st) = Inr ()
     \<and> fetched_ids (trace (snd (forward_message c e msg st))) = fetched_ids (trace st) @ [i]
     \<and> (\<forall>x. graph_mime e i = Inl x \<longrightarrow>
          forward_message c e msg st =
            (Inr (), emit (Print (MimeFailed x)) (snd (get_message_mime e i st))))
     \<and> (\<forall>content x. graph_mime e i = Inr content \<longrightarrow> first_fault c e i = Some x \<longrightarrow>
          forward_message c e msg st =
            (Inr (), emit (Print (SmtpFailed x))
               (snd (smtp_session c e i (normalize_recipients (Lst (SMTP_TO c))) content
                       (snd (get_message_mime e i st))))))
     \<and> fst (check_for_new_emails c e s) = Inr msgs
     \<and> fetched_ids (trace (snd (check_for_new_emails c e s)))
           = fetched_ids (trace s) @ forwardable_ids msgs
     \<and> (\<forall>m ms. msgs = m # ms \<longrightarrow> disk_write e = WriteOk \<longrightarrow>
          tracking_file (snd (check_for_new_emails c e s)) = Json (cursor_of e m))"
proof -
  note fa = forward_message_attempt[OF held cfg mid ex]
  have a: "forward_message c e msg st =
            (Inr (), emit (Print (MimeFailed x)) (snd (get_message_mime e i st)))"
    if "graph_mime e i = Inl x" for x
  proof -
    have "is_Exception x" using ex that by (auto simp add: only_exceptions_def)
    from forward_message_mime_failed[OF held cfg mid that this] show ?thesis .
  qed
  have b: "forward_message c e msg st =
            (Inr (), emit (Print (SmtpFailed x))
               (snd (smtp_session c e i (normalize_recipients (Lst (SMTP_TO c))) content
                       (snd (get_message_mime e i st)))))"
    if "graph_mime e i = Inr content" "first_fault c e i = Some x" for content x
    using forward_message_smtp[OF held cfg mid that(1)] that(2)
      only_exceptions_fault[OF ex that(2)] by simp
  note wb = check_for_new_emails_whole_batch[OF ex batch, of c]
  have w: "tracking_file (snd (check_for_new_emails c e s)) = Json (cursor_of e m)"
    if "msgs = m # ms" "disk_write e = WriteOk" for m ms
    using get_new_messages_writes_head[of e "''inbox''" 50 s m ms] batch that
      check_for_new_emails_file[of c e s] by simp
  show ?thesis using fa a b wb(1) wb(2)[OF cfg] w by blast
qed

theorem forwarding_failures_isolated_witness:
  "fst (check_for_new_emails example_config flaky (new_reader example_config Missing))
     = Inr [m2, m1]
   \<and> fetched_ids (trace (snd (check_for_new_emails example_config flaky
        (new_reader example_config Missing)))) = [''m2'', ''m1'']
   \<and> tracking_file (snd (check_for_new_emails example_config flaky
        (new_reader example_config Missing))) = Json (cursor_of flaky m2)
   \<and> forward_message example_config flaky m2 (holding Missing) =
        (Inr (), emit (Print (MimeFailed (RequestException ''503 Server Error'' None)))
                   (snd (get_message_mime flaky ''m2'' (holding Missing))))
   \<and> first_fault example_config flaky ''m1'' = Some (PyException ''SMTPRecipientsRefused'')"
proof -
  have ex: "only_exceptions flaky"
    by (auto simp add: only_exceptions_def flaky_def answering_def split: if_splits)
  have cfg: "forwarding_configured example_config"
    by (simp add: forwarding_configured_def example_config_def)
  have batch: "fst (get_new_messages flaky ''inbox'' 50 (new_reader example_config Missing))
      = Inr [m2, m1]"
    by code_simp
  have held: "truthy (access_token (holding Missing))" by simp
  have mid: "msg_id m2 = Some ''m2''" "''m2'' \<noteq> []" by (simp_all add: m2_def)
  have g: "graph_mime flaky ''m2'' = Inl (RequestException ''503 Server Error'' None)"
    by (simp add: flaky_def)
  have w: "disk_write flaky = WriteOk" by (simp add: flaky_def answering_def)
  have ids: "forwardable_ids [m2, m1] = [''m2'', ''m1'']"
    by (simp add: forwardable_ids_def m1_def m2_def)
  have t0: "fetched_ids (trace (new_reader example_config Missing)) = []"
    by (simp add: new_reader_def)
  have ff: "first_fault example_config flaky ''m1'' = Some (PyException ''SMTPRecipientsRefused'')"
    by (simp add: first_fault_def flaky_def answering_def example_config_def)
  from forwarding_failures_isolated[OF ex cfg batch held mid] g w ids t0 ff
  show ?thesis by simp
qed

subsection \<open>Failures are contained in their cycle\<close>



end
